theory Spec2Isabelle
  imports Main "HOL-Library.AList"
begin

section \<open>Data model (models.py)\<close>

text \<open>
  The pydantic classes become records. Field names carry a prefix, since several classes
  share the names \<open>id\<close>, \<open>name\<close>, \<open>is_complete\<close>. Python integers are \<open>int\<close>,
  \<open>Optional[...]\<close> is \<open>option\<close>. The salary is a Python float that the code only stores
  and copies, so its type is the parameter \<open>'f\<close>.

  A Mission holds a list of Target objects, and these are the very objects stored in
  \<open>fake_targets_db\<close> (pydantic keeps model instances by reference, and \<open>get_mission\<close>
  re-reads them from \<open>fake_targets_db\<close> before every use). The embedding therefore keeps
  the Target objects in one place, \<open>fake_targets_db\<close>, and a Mission holds the list of
  their ids, which serve as the addresses of the shared objects.
\<close>

record TargetCreate =
  tc_name :: string
  tc_country :: string
  tc_notes :: "string option"
  tc_is_complete :: bool

record Target =
  t_name :: string
  t_country :: string
  t_notes :: "string option"
  t_is_complete :: bool
  t_id :: int

record MissionCreate =
  mc_is_complete :: bool
  mc_targets :: "TargetCreate list"

record Mission =
  m_is_complete :: bool
  m_id :: int
  m_cat_id :: "int option"
  m_targets :: "int list"

record 'f CatCreate =
  cc_name :: string
  cc_years_of_experience :: int
  cc_breed :: string
  cc_salary :: 'f

record 'f CatUpdate =
  cu_salary :: "'f option"

record 'f Cat =
  c_name :: string
  c_years_of_experience :: int
  c_breed :: string
  c_salary :: 'f
  c_id :: int
  c_mission_id :: "int option"

text \<open>The shape validation of pydantic: \<open>Field(..., min_length=1, max_length=3)\<close> and
  \<open>Field(..., ge=0)\<close>. (The bound \<open>gt=0\<close> on the float salary is not modelled.)\<close>

definition valid_MissionCreate :: "MissionCreate \<Rightarrow> bool" where
  "valid_MissionCreate mission_in \<longleftrightarrow>
     1 \<le> length (mc_targets mission_in) \<and> length (mc_targets mission_in) \<le> 3"

definition valid_CatCreate :: "'f CatCreate \<Rightarrow> bool" where
  "valid_CatCreate cat_in \<longleftrightarrow> 0 \<le> cc_years_of_experience cat_in"

section \<open>Errors\<close>

datatype status =
    HTTP_400_BAD_REQUEST
  | HTTP_404_NOT_FOUND
  | HTTP_409_CONFLICT
  | HTTP_500_INTERNAL_SERVER_ERROR
  | HTTP_502_BAD_GATEWAY
  | HTTP_503_SERVICE_UNAVAILABLE

datatype error = HTTPException (status_code: status)

section \<open>The in-memory store (crud.py)\<close>

text \<open>
  The three dictionaries are association lists in insertion order: \<open>AList.update\<close>
  overwrites a present key in place and appends a new one, as a Python dict does, and
  \<open>AList.delete\<close> is \<open>pop\<close>.
\<close>

record 'f db =
  fake_cats_db :: "(int \<times> 'f Cat) list"
  fake_missions_db :: "(int \<times> Mission) list"
  fake_targets_db :: "(int \<times> Target) list"
  next_cat_id :: int
  next_mission_id :: int
  next_target_id :: int

definition reset_db_state :: "'f db \<Rightarrow> 'f db" where
  "reset_db_state s =
     \<lparr>fake_cats_db = [], fake_missions_db = [], fake_targets_db = [],
      next_cat_id = 1, next_mission_id = 1, next_target_id = 1\<rparr>"

text \<open>Python's \<open>xs[a:b]\<close>, with negative bounds counted from the end.\<close>

definition py_index :: "int \<Rightarrow> nat \<Rightarrow> nat" where
  "py_index i n = (if i < 0 then nat (max 0 (int n + i)) else min (nat i) n)"

definition py_slice :: "int \<Rightarrow> int \<Rightarrow> 'a list \<Rightarrow> 'a list" where
  "py_slice a b xs =
     (let lo = py_index a (length xs); hi = py_index b (length xs)
      in take (hi - lo) (drop lo xs))"

subsection \<open>Spy cats\<close>

definition create_cat :: "'f CatCreate \<Rightarrow> 'f db \<Rightarrow> (error + 'f Cat) \<times> 'f db" where
  "create_cat cat_in s =
     (if list_ex (\<lambda>existing_cat. c_name existing_cat = cc_name cat_in
                     \<and> c_breed existing_cat = cc_breed cat_in)
           (map snd (fake_cats_db s))
      then (Inl (HTTPException HTTP_409_CONFLICT), s)
      else
        let db_cat = \<lparr>c_name = cc_name cat_in,
                      c_years_of_experience = cc_years_of_experience cat_in,
                      c_breed = cc_breed cat_in,
                      c_salary = cc_salary cat_in,
                      c_id = next_cat_id s,
                      c_mission_id = None\<rparr>
        in (Inr db_cat,
            s\<lparr>fake_cats_db := AList.update (next_cat_id s) db_cat (fake_cats_db s),
              next_cat_id := next_cat_id s + 1\<rparr>))"

definition get_cat :: "int \<Rightarrow> 'f db \<Rightarrow> 'f Cat option" where
  "get_cat cat_id s = map_of (fake_cats_db s) cat_id"

definition get_cats :: "int \<Rightarrow> int \<Rightarrow> 'f db \<Rightarrow> 'f Cat list" where
  "get_cats skip limit s = py_slice skip (skip + limit) (map snd (fake_cats_db s))"

definition update_cat_salary :: "int \<Rightarrow> 'f \<Rightarrow> 'f db \<Rightarrow> 'f Cat option \<times> 'f db" where
  "update_cat_salary cat_id salary s =
     (case map_of (fake_cats_db s) cat_id of
        None \<Rightarrow> (None, s)
      | Some cat \<Rightarrow>
          let cat' = cat\<lparr>c_salary := salary\<rparr>
          in (Some cat', s\<lparr>fake_cats_db := AList.update cat_id cat' (fake_cats_db s)\<rparr>))"

subsection \<open>Missions and targets\<close>

text \<open>The loop of \<open>get_mission\<close> and \<open>get_missions\<close> that re-reads a mission's targets:
  the targets whose id is still a key of \<open>fake_targets_db\<close>, as stored there.\<close>

definition fetched_targets :: "'f db \<Rightarrow> Mission \<Rightarrow> int list" where
  "fetched_targets s mission =
     filter (\<lambda>tid. map_of (fake_targets_db s) tid \<noteq> None) (m_targets mission)"

definition get_mission :: "int \<Rightarrow> 'f db \<Rightarrow> Mission option \<times> 'f db" where
  "get_mission mission_id s =
     (case map_of (fake_missions_db s) mission_id of
        None \<Rightarrow> (None, s)
      | Some mission \<Rightarrow>
          let mission' = mission\<lparr>m_targets := fetched_targets s mission\<rparr>
          in (Some mission',
              s\<lparr>fake_missions_db := AList.update mission_id mission' (fake_missions_db s)\<rparr>))"

definition get_missions :: "int \<Rightarrow> int \<Rightarrow> 'f db \<Rightarrow> Mission list \<times> 'f db" where
  "get_missions skip limit s =
     (let missions = py_slice skip (skip + limit) (fake_missions_db s);
          s' = fold (\<lambda>(k, mission) st. snd (get_mission k st)) missions s
      in (map snd (py_slice skip (skip + limit) (fake_missions_db s')), s'))"

text \<open>The Target objects held in \<open>mission.targets\<close>.\<close>

definition mission_targets :: "'f db \<Rightarrow> Mission \<Rightarrow> Target list" where
  "mission_targets s mission =
     List.map_filter (map_of (fake_targets_db s)) (m_targets mission)"

definition delete_cat :: "int \<Rightarrow> 'f db \<Rightarrow> (error + 'f Cat option) \<times> 'f db" where
  "delete_cat cat_id s =
     (let (active, s1) =
        (case map_of (fake_cats_db s) cat_id of
           None \<Rightarrow> (False, s)
         | Some cat \<Rightarrow>
             (case c_mission_id cat of
                None \<Rightarrow> (False, s)
              | Some mid \<Rightarrow>
                  (case get_mission mid s of
                     (None, s') \<Rightarrow> (False, s')
                   | (Some mission, s') \<Rightarrow> (\<not> m_is_complete mission, s'))))
      in if active then (Inl (HTTPException HTTP_400_BAD_REQUEST), s1)
         else (Inr (map_of (fake_cats_db s1) cat_id),
               s1\<lparr>fake_cats_db := AList.delete cat_id (fake_cats_db s1)\<rparr>))"

text \<open>The loop of \<open>create_mission\<close> over \<open>mission_in.targets\<close>; the accumulator is
  \<open>db_targets\<close>.\<close>

fun create_targets :: "TargetCreate list \<Rightarrow> int list \<Rightarrow> 'f db \<Rightarrow> int list \<times> 'f db" where
  "create_targets [] db_targets s = (db_targets, s)"
| "create_targets (target_in # rest) db_targets s =
     (let db_target = \<lparr>t_name = tc_name target_in,
                       t_country = tc_country target_in,
                       t_notes = tc_notes target_in,
                       t_is_complete = False,
                       t_id = next_target_id s\<rparr>
      in create_targets rest (db_targets @ [next_target_id s])
           (s\<lparr>fake_targets_db := AList.update (next_target_id s) db_target (fake_targets_db s),
              next_target_id := next_target_id s + 1\<rparr>))"

definition create_mission :: "MissionCreate \<Rightarrow> 'f db \<Rightarrow> Mission \<times> 'f db" where
  "create_mission mission_in s =
     (let (db_targets, s1) = create_targets (mc_targets mission_in) [] s;
          db_mission = \<lparr>m_is_complete = False,
                        m_id = next_mission_id s1,
                        m_cat_id = None,
                        m_targets = db_targets\<rparr>
      in (db_mission,
          s1\<lparr>fake_missions_db := AList.update (next_mission_id s1) db_mission (fake_missions_db s1),
             next_mission_id := next_mission_id s1 + 1\<rparr>))"

definition assign_cat_to_mission ::
    "int \<Rightarrow> int \<Rightarrow> 'f db \<Rightarrow> (error + Mission option) \<times> 'f db" where
  "assign_cat_to_mission mission_id cat_id s =
     (case get_mission mission_id s of
        (None, s1) \<Rightarrow> (Inl (HTTPException HTTP_404_NOT_FOUND), s1)
      | (Some mission, s1) \<Rightarrow>
          (case get_cat cat_id s1 of
             None \<Rightarrow> (Inl (HTTPException HTTP_404_NOT_FOUND), s1)
           | Some cat \<Rightarrow>
               if m_cat_id mission \<noteq> None then (Inl (HTTPException HTTP_409_CONFLICT), s1)
               else
                 let (active, s2) =
                   (case c_mission_id cat of
                      None \<Rightarrow> (False, s1)
                    | Some mid \<Rightarrow>
                        (case get_mission mid s1 of
                           (None, s') \<Rightarrow> (False, s')
                         | (Some assigned_mission, s') \<Rightarrow>
                             (\<not> m_is_complete assigned_mission, s')))
                 in if active then (Inl (HTTPException HTTP_409_CONFLICT), s2)
                    else
                      let mission' = mission\<lparr>m_cat_id := Some cat_id\<rparr>;
                          cat' = cat\<lparr>c_mission_id := Some mission_id\<rparr>
                      in (Inr (Some mission'),
                          s2\<lparr>fake_missions_db :=
                                AList.update mission_id mission' (fake_missions_db s2),
                             fake_cats_db :=
                                AList.update cat_id cat' (fake_cats_db s2)\<rparr>)))"

definition update_target_notes ::
    "int \<Rightarrow> int \<Rightarrow> string \<Rightarrow> 'f db \<Rightarrow> (error + Target option) \<times> 'f db" where
  "update_target_notes mission_id target_id notes s =
     (case get_mission mission_id s of
        (None, s1) \<Rightarrow> (Inl (HTTPException HTTP_404_NOT_FOUND), s1)
      | (Some mission, s1) \<Rightarrow>
          if m_is_complete mission then (Inl (HTTPException HTTP_400_BAD_REQUEST), s1)
          else
            (case map_of (fake_targets_db s1) target_id of
               None \<Rightarrow> (Inl (HTTPException HTTP_404_NOT_FOUND), s1)
             | Some target \<Rightarrow>
                 if target \<notin> set (mission_targets s1 mission)
                 then (Inl (HTTPException HTTP_404_NOT_FOUND), s1)
                 else if t_is_complete target
                 then (Inl (HTTPException HTTP_400_BAD_REQUEST), s1)
                 else
                   let target' = target\<lparr>t_notes := Some notes\<rparr>
                   in (Inr (Some target'),
                       s1\<lparr>fake_targets_db :=
                             AList.update target_id target' (fake_targets_db s1)\<rparr>)))"

definition mark_target_complete ::
    "int \<Rightarrow> int \<Rightarrow> 'f db \<Rightarrow> (error + Target option) \<times> 'f db" where
  "mark_target_complete mission_id target_id s =
     (case get_mission mission_id s of
        (None, s1) \<Rightarrow> (Inl (HTTPException HTTP_404_NOT_FOUND), s1)
      | (Some mission, s1) \<Rightarrow>
          if m_is_complete mission then (Inl (HTTPException HTTP_400_BAD_REQUEST), s1)
          else
            (case map_of (fake_targets_db s1) target_id of
               None \<Rightarrow> (Inl (HTTPException HTTP_404_NOT_FOUND), s1)
             | Some target \<Rightarrow>
                 if target \<notin> set (mission_targets s1 mission)
                 then (Inl (HTTPException HTTP_404_NOT_FOUND), s1)
                 else if t_is_complete target then (Inr (Some target), s1)
                 else
                   let target' = target\<lparr>t_is_complete := True\<rparr>;
                       s2 = s1\<lparr>fake_targets_db :=
                                 AList.update target_id target' (fake_targets_db s1)\<rparr>;
                       all_targets_complete =
                         list_all t_is_complete (mission_targets s2 mission)
                   in if all_targets_complete then
                        let s3 = s2\<lparr>fake_missions_db :=
                                      AList.update mission_id (mission\<lparr>m_is_complete := True\<rparr>)
                                        (fake_missions_db s2)\<rparr>;
                            s4 = (case m_cat_id mission of
                                    None \<Rightarrow> s3
                                  | Some cid \<Rightarrow>
                                      if cid \<noteq> 0 then
                                        (case map_of (fake_cats_db s3) cid of
                                           None \<Rightarrow> s3
                                         | Some cat \<Rightarrow>
                                             s3\<lparr>fake_cats_db :=
                                                  AList.update cid (cat\<lparr>c_mission_id := None\<rparr>)
                                                    (fake_cats_db s3)\<rparr>)
                                      else s3)
                        in (Inr (Some target'), s4)
                      else (Inr (Some target'), s2)))"

definition delete_mission :: "int \<Rightarrow> 'f db \<Rightarrow> (error + Mission option) \<times> 'f db" where
  "delete_mission mission_id s =
     (case get_mission mission_id s of
        (None, s1) \<Rightarrow> (Inr None, s1)
      | (Some mission, s1) \<Rightarrow>
          let blocked =
            (case m_cat_id mission of
               None \<Rightarrow> False
             | Some cid \<Rightarrow>
                 (case get_cat cid s1 of
                    None \<Rightarrow> False
                  | Some cat \<Rightarrow>
                      c_mission_id cat = Some mission_id \<and> \<not> m_is_complete mission))
          in if blocked then (Inl (HTTPException HTTP_400_BAD_REQUEST), s1)
             else
               let s2 = s1\<lparr>fake_targets_db :=
                             fold AList.delete (m_targets mission) (fake_targets_db s1)\<rparr>
               in (Inr (map_of (fake_missions_db s2) mission_id),
                   s2\<lparr>fake_missions_db := AList.delete mission_id (fake_missions_db s2)\<rparr>))"

section \<open>Breed validation (dependencies.py)\<close>

text \<open>
  The breed lookup is an external service. What the request to it yields is an input of
  the model: the request fails (\<open>httpx.RequestError\<close>), the service answers with an error
  status (\<open>httpx.HTTPStatusError\<close>), anything else goes wrong (for instance the body is
  not JSON), or the body is a list of entries. An entry is \<open>Some name\<close> when
  \<open>b["name"].lower()\<close> evaluates and \<open>None\<close> when it raises. Python's \<open>str.lower\<close>
  is the parameter \<open>lower\<close>.
\<close>

datatype api_response =
    RequestError
  | HTTPStatusError
  | OtherException
  | BreedsData "string option list"

text \<open>\<open>any(b["name"].lower() == breed_to_validate.lower() for b in breeds_data)\<close>: it stops
  at the first match; \<open>None\<close> is an exception raised on the way.\<close>

fun any_breed :: "(string \<Rightarrow> string) \<Rightarrow> string \<Rightarrow> string option list \<Rightarrow> bool option" where
  "any_breed lower breed_to_validate [] = Some False"
| "any_breed lower breed_to_validate (None # breeds_data) = None"
| "any_breed lower breed_to_validate (Some name # breeds_data) =
     (if lower name = lower breed_to_validate then Some True
      else any_breed lower breed_to_validate breeds_data)"

text \<open>The \<open>HTTPException\<close> with status 400 is raised inside the \<open>try\<close> block, and
  \<open>HTTPException\<close> is an \<open>Exception\<close>: the last \<open>except\<close> clause catches it and raises
  status 500 in its place.\<close>

definition validate_cat_breed_from_payload ::
    "(string \<Rightarrow> string) \<Rightarrow> api_response \<Rightarrow> 'f CatCreate \<Rightarrow> error + 'f CatCreate" where
  "validate_cat_breed_from_payload lower response cat_create_payload =
     (case response of
        RequestError \<Rightarrow> Inl (HTTPException HTTP_503_SERVICE_UNAVAILABLE)
      | HTTPStatusError \<Rightarrow> Inl (HTTPException HTTP_502_BAD_GATEWAY)
      | OtherException \<Rightarrow> Inl (HTTPException HTTP_500_INTERNAL_SERVER_ERROR)
      | BreedsData breeds_data \<Rightarrow>
          (case any_breed lower (cc_breed cat_create_payload) breeds_data of
             None \<Rightarrow> Inl (HTTPException HTTP_500_INTERNAL_SERVER_ERROR)
           | Some False \<Rightarrow> Inl (HTTPException HTTP_500_INTERNAL_SERVER_ERROR)
           | Some True \<Rightarrow> Inr cat_create_payload))"

section \<open>Request handlers (routers/cats.py, routers/missions.py)\<close>

text \<open>\<open>Depends(validate_cat_breed_from_payload)\<close>: the dependency runs before the body of
  the handler.\<close>

definition create_spy_cat ::
    "(string \<Rightarrow> string) \<Rightarrow> api_response \<Rightarrow> 'f CatCreate \<Rightarrow> 'f db \<Rightarrow> (error + 'f Cat) \<times> 'f db" where
  "create_spy_cat lower response cat_create_payload s =
     (case validate_cat_breed_from_payload lower response cat_create_payload of
        Inl e \<Rightarrow> (Inl e, s)
      | Inr cat_in \<Rightarrow> create_cat cat_in s)"

definition get_spy_cat :: "int \<Rightarrow> 'f db \<Rightarrow> error + 'f Cat" where
  "get_spy_cat cat_id s =
     (case get_cat cat_id s of
        None \<Rightarrow> Inl (HTTPException HTTP_404_NOT_FOUND)
      | Some db_cat \<Rightarrow> Inr db_cat)"

definition update_spy_cat_salary ::
    "int \<Rightarrow> 'f CatUpdate \<Rightarrow> 'f db \<Rightarrow> (error + 'f Cat) \<times> 'f db" where
  "update_spy_cat_salary cat_id salary_update s =
     (case cu_salary salary_update of
        None \<Rightarrow> (Inl (HTTPException HTTP_400_BAD_REQUEST), s)
      | Some salary \<Rightarrow>
          (case update_cat_salary cat_id salary s of
             (None, s') \<Rightarrow> (Inl (HTTPException HTTP_404_NOT_FOUND), s')
           | (Some updated_cat, s') \<Rightarrow> (Inr updated_cat, s')))"

definition delete_spy_cat :: "int \<Rightarrow> 'f db \<Rightarrow> (error + unit) \<times> 'f db" where
  "delete_spy_cat cat_id s =
     (case delete_cat cat_id s of
        (Inl e, s') \<Rightarrow> (Inl e, s')
      | (Inr None, s') \<Rightarrow> (Inl (HTTPException HTTP_404_NOT_FOUND), s')
      | (Inr (Some deleted_cat), s') \<Rightarrow> (Inr (), s'))"

definition get_single_mission :: "int \<Rightarrow> 'f db \<Rightarrow> (error + Mission) \<times> 'f db" where
  "get_single_mission mission_id s =
     (case get_mission mission_id s of
        (None, s') \<Rightarrow> (Inl (HTTPException HTTP_404_NOT_FOUND), s')
      | (Some db_mission, s') \<Rightarrow> (Inr db_mission, s'))"

definition assign_cat_to_a_mission :: "int \<Rightarrow> int \<Rightarrow> 'f db \<Rightarrow> (error + Mission) \<times> 'f db" where
  "assign_cat_to_a_mission mission_id cat_id s =
     (case assign_cat_to_mission mission_id cat_id s of
        (Inl e, s') \<Rightarrow> (Inl e, s')
      | (Inr None, s') \<Rightarrow> (Inl (HTTPException HTTP_404_NOT_FOUND), s')
      | (Inr (Some updated_mission), s') \<Rightarrow> (Inr updated_mission, s'))"

definition delete_a_mission :: "int \<Rightarrow> 'f db \<Rightarrow> (error + unit) \<times> 'f db" where
  "delete_a_mission mission_id s =
     (case delete_mission mission_id s of
        (Inl e, s') \<Rightarrow> (Inl e, s')
      | (Inr None, s') \<Rightarrow> (Inl (HTTPException HTTP_404_NOT_FOUND), s')
      | (Inr (Some deleted_mission), s') \<Rightarrow> (Inr (), s'))"

text \<open>The requests of the API, and the store after a request has been served. The handlers
  \<open>create_new_mission\<close>, \<open>list_all_missions\<close>, \<open>update_mission_target_notes\<close> and
  \<open>mark_mission_target_complete\<close> return what the crud function returns.\<close>

datatype 'f request =
    CreateCat api_response "'f CatCreate"
  | ListCats int int
  | GetCat int
  | UpdateSalary int "'f CatUpdate"
  | DeleteCat int
  | CreateMission MissionCreate
  | ListMissions int int
  | GetMission int
  | AssignCat int int
  | UpdateNotes int int string
  | CompleteTarget int int
  | DeleteMission int

fun valid_request :: "'f request \<Rightarrow> bool" where
  "valid_request (CreateCat response cat_in) = valid_CatCreate cat_in"
| "valid_request (CreateMission mission_in) = valid_MissionCreate mission_in"
| "valid_request r = True"

fun handle :: "(string \<Rightarrow> string) \<Rightarrow> 'f request \<Rightarrow> 'f db \<Rightarrow> 'f db" where
  "handle lower (CreateCat response cat_in) s = snd (create_spy_cat lower response cat_in s)"
| "handle lower (ListCats skip limit) s = s"
| "handle lower (GetCat cat_id) s = s"
| "handle lower (UpdateSalary cat_id salary_update) s =
     snd (update_spy_cat_salary cat_id salary_update s)"
| "handle lower (DeleteCat cat_id) s = snd (delete_spy_cat cat_id s)"
| "handle lower (CreateMission mission_in) s = snd (create_mission mission_in s)"
| "handle lower (ListMissions skip limit) s = snd (get_missions skip limit s)"
| "handle lower (GetMission mission_id) s = snd (get_single_mission mission_id s)"
| "handle lower (AssignCat mission_id cat_id) s =
     snd (assign_cat_to_a_mission mission_id cat_id s)"
| "handle lower (UpdateNotes mission_id target_id notes) s =
     snd (update_target_notes mission_id target_id notes s)"
| "handle lower (CompleteTarget mission_id target_id) s =
     snd (mark_target_complete mission_id target_id s)"
| "handle lower (DeleteMission mission_id) s = snd (delete_a_mission mission_id s)"

text \<open>The stores the process can be in: the store is reset when the process starts
  (\<open>lifespan\<close> in main.py), and then requests of valid shape are served one after the other.\<close>

inductive reachable :: "'f db \<Rightarrow> bool" where
  startup: "reachable (reset_db_state s)"
| served: "reachable s \<Longrightarrow> valid_request r \<Longrightarrow> reachable (handle lower r s)"

section \<open>The consistency of a store\<close>

text \<open>
  What every reachable store satisfies: keys are unique; ids are below the counters and cat
  ids positive; a target is stored under its own id; every target a mission lists is
  stored; a mission is complete exactly if all targets it lists are; no target belongs to
  two missions.
\<close>

definition maps_inv ::
    "(int \<rightharpoonup> 'f Cat) \<Rightarrow> (int \<rightharpoonup> Mission) \<Rightarrow> (int \<rightharpoonup> Target) \<Rightarrow> int \<Rightarrow> int \<Rightarrow> int \<Rightarrow> bool" where
  "maps_inv C M T nc nm nt \<longleftrightarrow>
     0 < nc \<and>
     (\<forall>k c. C k = Some c \<longrightarrow> 0 < k \<and> k < nc) \<and>
     (\<forall>k t. T k = Some t \<longrightarrow> t_id t = k \<and> k < nt) \<and>
     (\<forall>k m. M k = Some m \<longrightarrow>
        k < nm \<and>
        (\<forall>tid \<in> set (m_targets m). T tid \<noteq> None) \<and>
        (m_is_complete m \<longleftrightarrow>
           (\<forall>tid \<in> set (m_targets m). \<exists>t. T tid = Some t \<and> t_is_complete t))) \<and>
     (\<forall>k1 k2 m1 m2. M k1 = Some m1 \<longrightarrow> M k2 = Some m2 \<longrightarrow> k1 \<noteq> k2 \<longrightarrow>
        set (m_targets m1) \<inter> set (m_targets m2) = {})"

definition db_inv :: "'f db \<Rightarrow> bool" where
  "db_inv s \<longleftrightarrow>
     distinct (map fst (fake_cats_db s)) \<and>
     distinct (map fst (fake_missions_db s)) \<and>
     distinct (map fst (fake_targets_db s)) \<and>
     maps_inv (map_of (fake_cats_db s)) (map_of (fake_missions_db s))
       (map_of (fake_targets_db s)) (next_cat_id s) (next_mission_id s) (next_target_id s)"

text \<open>One turn of the loop of \<open>create_mission\<close>.\<close>

definition new_target :: "TargetCreate \<Rightarrow> int \<Rightarrow> Target" where
  "new_target tc n =
     \<lparr>t_name = tc_name tc, t_country = tc_country tc, t_notes = tc_notes tc,
      t_is_complete = False, t_id = n\<rparr>"

definition add_target :: "TargetCreate \<Rightarrow> 'f db \<Rightarrow> 'f db" where
  "add_target tc s =
     s\<lparr>fake_targets_db :=
         AList.update (next_target_id s) (new_target tc (next_target_id s)) (fake_targets_db s),
       next_target_id := next_target_id s + 1\<rparr>"

text \<open>The guard of \<open>delete_cat\<close> and of \<open>assign_cat_to_mission\<close>: the cat is stored, and its
  mission reference names a stored mission that is not complete.\<close>

definition on_active_mission :: "'f db \<Rightarrow> int \<Rightarrow> bool" where
  "on_active_mission s cat_id \<longleftrightarrow>
     (case map_of (fake_cats_db s) cat_id of
        None \<Rightarrow> False
      | Some cat \<Rightarrow>
          (case c_mission_id cat of
             None \<Rightarrow> False
           | Some mid \<Rightarrow>
               (case map_of (fake_missions_db s) mid of
                  None \<Rightarrow> False
                | Some mission \<Rightarrow> \<not> m_is_complete mission)))"

text \<open>The last step of \<open>mark_target_complete\<close>: the cat of a mission that became complete
  is set free.\<close>

definition release_cat :: "Mission \<Rightarrow> 'f db \<Rightarrow> 'f db" where
  "release_cat mission s =
     (case m_cat_id mission of
        None \<Rightarrow> s
      | Some cid \<Rightarrow>
          if cid \<noteq> 0 then
            (case map_of (fake_cats_db s) cid of
               None \<Rightarrow> s
             | Some cat \<Rightarrow>
                 s\<lparr>fake_cats_db := AList.update cid (cat\<lparr>c_mission_id := None\<rparr>) (fake_cats_db s)\<rparr>)
          else s)"

text \<open>All targets of the mission other than \<open>target_id\<close> are complete.\<close>

definition others_complete :: "'f db \<Rightarrow> Mission \<Rightarrow> int \<Rightarrow> bool" where
  "others_complete s mission target_id \<longleftrightarrow>
     (\<forall>k \<in> set (m_targets mission). k = target_id \<or>
        (case map_of (fake_targets_db s) k of None \<Rightarrow> False | Some t \<Rightarrow> t_is_complete t))"

text \<open>The store a fresh process starts from, at salary type \<open>int\<close>.\<close>

definition ex_db0 :: "int db" where
  "ex_db0 =
     \<lparr>fake_cats_db = [], fake_missions_db = [], fake_targets_db = [],
      next_cat_id = 1, next_mission_id = 1, next_target_id = 1\<rparr>"

text \<open>Every stored mission is complete exactly if all the targets it holds are.\<close>

definition flags_derived :: "'f db \<Rightarrow> bool" where
  "flags_derived s \<longleftrightarrow>
     (\<forall>(mission_id, mission) \<in> set (fake_missions_db s).
        m_is_complete mission = list_all t_is_complete (mission_targets s mission))"

section \<open>Example requests\<close>

definition serve :: "(string \<Rightarrow> string) \<Rightarrow> 'f request list \<Rightarrow> 'f db \<Rightarrow> 'f db" where
  "serve lower rs s = fold (handle lower) rs s"

definition ex_cat :: "int CatCreate" where
  "ex_cat = \<lparr>cc_name = ''Tom'', cc_years_of_experience = 3, cc_breed = ''Siamese'',
              cc_salary = 100\<rparr>"

definition ex_mission1 :: MissionCreate where
  "ex_mission1 =
     \<lparr>mc_is_complete = True,
      mc_targets = [\<lparr>tc_name = ''Alice'', tc_country = ''FR'', tc_notes = None,
                     tc_is_complete = True\<rparr>]\<rparr>"

definition ex_mission2 :: MissionCreate where
  "ex_mission2 =
     \<lparr>mc_is_complete = False,
      mc_targets = [\<lparr>tc_name = ''Alice'', tc_country = ''FR'', tc_notes = None,
                     tc_is_complete = False\<rparr>,
                    \<lparr>tc_name = ''Bob'', tc_country = ''DE'', tc_notes = Some ''n'',
                     tc_is_complete = False\<rparr>]\<rparr>"

text \<open>A mission is created and completed with no cat assigned, a cat is then assigned to
  it, and the mission is deleted.\<close>

definition dangling_requests :: "int request list" where
  "dangling_requests =
     [CreateMission ex_mission1,
      CreateCat (BreedsData [Some ''Siamese'']) ex_cat,
      CompleteTarget 1 1,
      AssignCat 1 1,
      DeleteMission 1]"

text \<open>A cat is assigned to a mission that is already complete, and a second mission is
  created.\<close>

definition reassign_requests :: "int request list" where
  "reassign_requests =
     [CreateMission ex_mission1,
      CreateCat (BreedsData [Some ''Siamese'']) ex_cat,
      CompleteTarget 1 1,
      AssignCat 1 1,
      CreateMission ex_mission2]"

text \<open>A stored cat has the name and the breed of the payload.\<close>

definition duplicate_cat :: "'f CatCreate \<Rightarrow> 'f db \<Rightarrow> bool" where
  "duplicate_cat cat_in s \<longleftrightarrow>
     (\<exists>(k, c) \<in> set (fake_cats_db s). c_name c = cc_name cat_in \<and> c_breed c = cc_breed cat_in)"

text \<open>The guard of \<open>delete_mission\<close>: the mission has a cat reference, that cat is stored
  and refers back to the mission, and the mission is not complete.\<close>

definition assignment_active :: "'f db \<Rightarrow> int \<Rightarrow> Mission \<Rightarrow> bool" where
  "assignment_active s mission_id mission \<longleftrightarrow>
     (case m_cat_id mission of
        None \<Rightarrow> False
      | Some cid \<Rightarrow>
          (case map_of (fake_cats_db s) cid of
             None \<Rightarrow> False
           | Some cat \<Rightarrow> c_mission_id cat = Some mission_id \<and> \<not> m_is_complete mission))"

text \<open>Completed missions and an assigned cat.\<close>

definition ex_completed :: "int db" where
  "ex_completed =
     serve id [CreateMission ex_mission2, CompleteTarget 1 1, CompleteTarget 1 2]
       (reset_db_state ex_db0)"

definition ex_assigned :: "int db" where
  "ex_assigned =
     serve id [CreateMission ex_mission2,
               CreateCat (BreedsData [Some ''Siamese'']) ex_cat,
               AssignCat 1 1]
       (reset_db_state ex_db0)"

section \<open>The consistency of a store: preservation\<close>

subsection \<open>Rules for \<open>maps_inv\<close>\<close>

lemma maps_invI:
  assumes "0 < nc"
    and "\<And>k c. C k = Some c \<Longrightarrow> 0 < k \<and> k < nc"
    and "\<And>k t. T k = Some t \<Longrightarrow> t_id t = k \<and> k < nt"
    and "\<And>k m. M k = Some m \<Longrightarrow> k < nm"
    and "\<And>k m tid. M k = Some m \<Longrightarrow> tid \<in> set (m_targets m) \<Longrightarrow> T tid \<noteq> None"
    and "\<And>k m. M k = Some m \<Longrightarrow> m_is_complete m \<longleftrightarrow>
           (\<forall>tid \<in> set (m_targets m). \<exists>t. T tid = Some t \<and> t_is_complete t)"
    and "\<And>k1 k2 m1 m2. M k1 = Some m1 \<Longrightarrow> M k2 = Some m2 \<Longrightarrow> k1 \<noteq> k2 \<Longrightarrow>
        set (m_targets m1) \<inter> set (m_targets m2) = {}"
  shows "maps_inv C M T nc nm nt"
  unfolding maps_inv_def using assms by blast

lemma maps_inv_nc: "maps_inv C M T nc nm nt \<Longrightarrow> 0 < nc"
  unfolding maps_inv_def by blast
lemma maps_inv_cat: "maps_inv C M T nc nm nt \<Longrightarrow> C k = Some c \<Longrightarrow> 0 < k \<and> k < nc"
  unfolding maps_inv_def by blast
lemma maps_inv_target: "maps_inv C M T nc nm nt \<Longrightarrow> T k = Some t \<Longrightarrow> t_id t = k \<and> k < nt"
  unfolding maps_inv_def by blast
lemma maps_inv_mission_key: "maps_inv C M T nc nm nt \<Longrightarrow> M k = Some m \<Longrightarrow> k < nm"
  unfolding maps_inv_def by blast
lemma maps_inv_resolved: "maps_inv C M T nc nm nt \<Longrightarrow> M k = Some m \<Longrightarrow> tid \<in> set (m_targets m) \<Longrightarrow> T tid \<noteq> None"
  unfolding maps_inv_def by blast
lemma maps_inv_flag: "maps_inv C M T nc nm nt \<Longrightarrow> M k = Some m \<Longrightarrow>
    m_is_complete m \<longleftrightarrow> (\<forall>tid \<in> set (m_targets m). \<exists>t. T tid = Some t \<and> t_is_complete t)"
  unfolding maps_inv_def by blast
lemma maps_inv_disjoint: "maps_inv C M T nc nm nt \<Longrightarrow> M k1 = Some m1 \<Longrightarrow> M k2 = Some m2 \<Longrightarrow> k1 \<noteq> k2 \<Longrightarrow>
        set (m_targets m1) \<inter> set (m_targets m2) = {}"
  unfolding maps_inv_def by blast

lemma maps_inv_cat_upd:
  assumes "maps_inv C M T nc nm nt" "C k \<noteq> None"
  shows "maps_inv (C(k \<mapsto> c)) M T nc nm nt"
proof (rule maps_invI)
  show "0 < nc" using assms(1) by (rule maps_inv_nc)
  fix k' c' assume "(C(k \<mapsto> c)) k' = Some c'"
  then have "C k' \<noteq> None" using assms(2) by (cases "k' = k") auto
  then show "0 < k' \<and> k' < nc" using maps_inv_cat[OF assms(1)] by blast
qed (use assms(1) in \<open>blast dest: maps_inv_target maps_inv_mission_key maps_inv_resolved maps_inv_flag maps_inv_disjoint\<close>)+

lemma maps_inv_cat_new:
  assumes "maps_inv C M T nc nm nt"
  shows "maps_inv (C(nc \<mapsto> c)) M T (nc + 1) nm nt"
proof (rule maps_invI)
  show "0 < nc + 1" using maps_inv_nc[OF assms] by simp
  fix k' c' assume "(C(nc \<mapsto> c)) k' = Some c'"
  then have "k' = nc \<or> C k' = Some c'" by (cases "k' = nc") auto
  then show "0 < k' \<and> k' < nc + 1" using maps_inv_cat[OF assms] maps_inv_nc[OF assms] by fastforce
qed (use assms in \<open>blast dest: maps_inv_target maps_inv_mission_key maps_inv_resolved maps_inv_flag maps_inv_disjoint\<close>)+

lemma maps_inv_cat_del:
  assumes "maps_inv C M T nc nm nt"
  shows "maps_inv (C(k := None)) M T nc nm nt"
proof (rule maps_invI)
  show "0 < nc" using assms(1) by (rule maps_inv_nc)
  fix k' c' assume "(C(k := None)) k' = Some c'"
  then have "C k' = Some c'" by (cases "k' = k") auto
  then show "0 < k' \<and> k' < nc" using maps_inv_cat[OF assms(1)] by blast
qed (use assms(1) in \<open>blast dest: maps_inv_target maps_inv_mission_key maps_inv_resolved maps_inv_flag maps_inv_disjoint\<close>)+

lemma maps_inv_mission_upd:
  assumes inv: "maps_inv C M T nc nm nt" and m: "M mid = Some m"
    and tg: "m_targets m' = m_targets m" and fl: "m_is_complete m' = m_is_complete m"
  shows "maps_inv C (M(mid \<mapsto> m')) T nc nm nt"
proof -
  have sim: "\<exists>y. M k = Some y \<and> m_targets x = m_targets y \<and> m_is_complete x = m_is_complete y"
    if "(M(mid \<mapsto> m')) k = Some x" for k x
    using that m tg fl by (cases "k = mid") auto
  show ?thesis
  proof (rule maps_invI)
    show "0 < nc" using inv by (rule maps_inv_nc)
    show "0 < k \<and> k < nc" if "C k = Some c" for k c using maps_inv_cat[OF inv that] .
    show "t_id t = k \<and> k < nt" if "T k = Some t" for k t using maps_inv_target[OF inv that] .
    show "k < nm" if "(M(mid \<mapsto> m')) k = Some x" for k x
      using sim[OF that] maps_inv_mission_key[OF inv] by blast
    show "T tid \<noteq> None" if "(M(mid \<mapsto> m')) k = Some x" "tid \<in> set (m_targets x)" for k x tid
      using sim[OF that(1)] that(2) maps_inv_resolved[OF inv] by metis
    show "m_is_complete x \<longleftrightarrow> (\<forall>tid \<in> set (m_targets x). \<exists>t. T tid = Some t \<and> t_is_complete t)"
      if "(M(mid \<mapsto> m')) k = Some x" for k x
      using sim[OF that] maps_inv_flag[OF inv] by metis
    show "set (m_targets m1) \<inter> set (m_targets m2) = {}"
      if "(M(mid \<mapsto> m')) k1 = Some m1" "(M(mid \<mapsto> m')) k2 = Some m2" "k1 \<noteq> k2" for k1 k2 m1 m2
      using sim[OF that(1)] sim[OF that(2)] that(3) maps_inv_disjoint[OF inv] by metis
  qed
qed

lemma maps_inv_target_mission_upd:
  assumes inv: "maps_inv C M T nc nm nt" and t: "T k = Some t" and tid: "t_id t' = t_id t"
    and m: "M mid = Some m" and km: "k \<in> set (m_targets m)"
    and tg: "m_targets m' = m_targets m"
    and fl: "m_is_complete m' \<longleftrightarrow>
               (\<forall>tid \<in> set (m_targets m). \<exists>x. (T(k \<mapsto> t')) tid = Some x \<and> t_is_complete x)"
  shows "maps_inv C (M(mid \<mapsto> m')) (T(k \<mapsto> t')) nc nm nt"
proof -
  have other: "k \<notin> set (m_targets x)" if "M k2 = Some x" "k2 \<noteq> mid" for k2 x
    using maps_inv_disjoint[OF inv that(1) m that(2)] km by blast
  have dom: "(T(k \<mapsto> t')) j \<noteq> None \<longleftrightarrow> T j \<noteq> None" for j
    using t by (cases "j = k") auto
  show ?thesis
  proof (rule maps_invI)
    show "0 < nc" using inv by (rule maps_inv_nc)
    show "0 < j \<and> j < nc" if "C j = Some c" for j c using maps_inv_cat[OF inv that] .
    show "t_id x = j \<and> j < nt" if "(T(k \<mapsto> t')) j = Some x" for j x
    proof (cases "j = k")
      case True
      then show ?thesis using that tid maps_inv_target[OF inv t] by simp
    next
      case False
      then show ?thesis using that maps_inv_target[OF inv, of j x] by simp
    qed
    show "j < nm" if "(M(mid \<mapsto> m')) j = Some x" for j x
      using that m maps_inv_mission_key[OF inv, of j] by (cases "j = mid") auto
    show "(T(k \<mapsto> t')) tid \<noteq> None" if "(M(mid \<mapsto> m')) j = Some x" "tid \<in> set (m_targets x)" for j x tid
    proof (cases "j = mid")
      case True
      then have "tid \<in> set (m_targets m)" using that tg by simp
      then show ?thesis using maps_inv_resolved[OF inv m] dom by blast
    next
      case False
      then have "M j = Some x" using that(1) by simp
      then show ?thesis using maps_inv_resolved[OF inv _ that(2)] dom by blast
    qed
    show "m_is_complete x \<longleftrightarrow> (\<forall>tid \<in> set (m_targets x). \<exists>y. (T(k \<mapsto> t')) tid = Some y \<and> t_is_complete y)"
      if "(M(mid \<mapsto> m')) j = Some x" for j x
    proof (cases "j = mid")
      case True
      then have "x = m'" using that by simp
      then show ?thesis using fl tg by simp
    next
      case False
      then have x: "M j = Some x" using that by simp
      have "(T(k \<mapsto> t')) tid = T tid" if "tid \<in> set (m_targets x)" for tid
        using other[OF x False] that by auto
      then show ?thesis using maps_inv_flag[OF inv x] by simp
    qed
    show "set (m_targets m1) \<inter> set (m_targets m2) = {}"
      if "(M(mid \<mapsto> m')) k1 = Some m1" "(M(mid \<mapsto> m')) k2 = Some m2" "k1 \<noteq> k2" for k1 k2 m1 m2
    proof -
      have a: "\<exists>y. M k1 = Some y \<and> m_targets m1 = m_targets y"
        using that(1) m tg by (cases "k1 = mid") auto
      have b: "\<exists>y. M k2 = Some y \<and> m_targets m2 = m_targets y"
        using that(2) m tg by (cases "k2 = mid") auto
      show ?thesis using a b that(3) maps_inv_disjoint[OF inv] by metis
    qed
  qed
qed

lemma maps_inv_create_mission:
  assumes inv: "maps_inv C M T nc nm nt"
    and old: "\<And>k. k < nt \<or> nt' \<le> k \<Longrightarrow> T' k = T k"
    and new: "\<And>k. nt \<le> k \<Longrightarrow> k < nt' \<Longrightarrow> \<exists>t. T' k = Some t \<and> t_id t = k \<and> \<not> t_is_complete t"
    and ids: "set (m_targets m') = {nt ..< nt'}" and ne: "nt < nt'"
    and fl: "\<not> m_is_complete m'"
  shows "maps_inv C (M(nm \<mapsto> m')) T' nc (nm + 1) nt'"
proof -
  have oldT: "T' k = T k" if "T k \<noteq> None" for k
  proof -
    from that obtain t where "T k = Some t" by blast
    then have "k < nt" using maps_inv_target[OF inv] by blast
    then show ?thesis using old by blast
  qed
  have oldm: "\<forall>tid \<in> set (m_targets x). T tid \<noteq> None \<and> T' tid = T tid" if "M k = Some x" for k x
    using maps_inv_resolved[OF inv that] oldT by blast
  have fresh: "M nm = None"
  proof (cases "M nm")
    case (Some x)
    then show ?thesis using maps_inv_mission_key[OF inv Some] by simp
  qed simp
  show ?thesis
  proof (rule maps_invI)
    show "0 < nc" using inv by (rule maps_inv_nc)
    show "0 < j \<and> j < nc" if "C j = Some c" for j c using maps_inv_cat[OF inv that] .
    show "t_id x = j \<and> j < nt'" if "T' j = Some x" for j x
    proof (cases "nt \<le> j \<and> j < nt'")
      case True
      then show ?thesis using new[of j] that by auto
    next
      case False
      then have "T j = Some x" using old[of j] that by auto
      then show ?thesis using maps_inv_target[OF inv, of j x] ne by auto
    qed
    show "j < nm + 1" if "(M(nm \<mapsto> m')) j = Some x" for j x
      using that maps_inv_mission_key[OF inv, of j x] by (cases "j = nm") auto
    show "T' tid \<noteq> None" if "(M(nm \<mapsto> m')) j = Some x" "tid \<in> set (m_targets x)" for j x tid
    proof (cases "j = nm")
      case True
      then have "nt \<le> tid \<and> tid < nt'" using that ids by auto
      then show ?thesis using new[of tid] by auto
    next
      case False
      then have "M j = Some x" using that(1) by simp
      then show ?thesis using oldm that(2) by metis
    qed
    show "m_is_complete x \<longleftrightarrow> (\<forall>tid \<in> set (m_targets x). \<exists>y. T' tid = Some y \<and> t_is_complete y)"
      if "(M(nm \<mapsto> m')) j = Some x" for j x
    proof (cases "j = nm")
      case True
      then have x: "x = m'" using that by simp
      have "nt \<in> set (m_targets m')" using ids ne by simp
      moreover have "\<not> (\<exists>y. T' nt = Some y \<and> t_is_complete y)" using new[of nt] ne by auto
      ultimately show ?thesis using fl x by blast
    next
      case False
      then have x: "M j = Some x" using that by simp
      show ?thesis using maps_inv_flag[OF inv x] oldm[OF x] by simp
    qed
    show "set (m_targets m1) \<inter> set (m_targets m2) = {}"
      if "(M(nm \<mapsto> m')) k1 = Some m1" "(M(nm \<mapsto> m')) k2 = Some m2" "k1 \<noteq> k2" for k1 k2 m1 m2
    proof -
      note hyp = that
      have below: "\<forall>tid \<in> set (m_targets x). tid < nt" if "M k = Some x" for k x
      proof
        fix tid assume "tid \<in> set (m_targets x)"
        then have "T tid \<noteq> None" using maps_inv_resolved[OF inv that] by blast
        then obtain t where "T tid = Some t" by blast
        then show "tid < nt" using maps_inv_target[OF inv] by blast
      qed
      consider "k1 = nm" "k2 \<noteq> nm" | "k2 = nm" "k1 \<noteq> nm" | "k1 \<noteq> nm" "k2 \<noteq> nm"
        using hyp(3) by blast
      then show ?thesis
      proof cases
        case 1
        then have "m1 = m'" "M k2 = Some m2" using hyp by simp_all
        then show ?thesis using below[of k2 m2] ids by fastforce
      next
        case 2
        then have "m2 = m'" "M k1 = Some m1" using hyp by simp_all
        then show ?thesis using below[of k1 m1] ids by fastforce
      next
        case 3
        then have "M k1 = Some m1" "M k2 = Some m2" using hyp by simp_all
        then show ?thesis using maps_inv_disjoint[OF inv] hyp(3) by blast
      qed
    qed
  qed
qed

lemma maps_inv_delete_mission:
  assumes inv: "maps_inv C M T nc nm nt" and m: "M mid = Some m"
    and T': "\<And>k. T' k = (if k \<in> set (m_targets m) then None else T k)"
  shows "maps_inv C (M(mid := None)) T' nc nm nt"
proof -
  have keep: "M j = Some x \<and> j \<noteq> mid" if "(M(mid := None)) j = Some x" for j x
    using that by (cases "j = mid") auto
  have same: "T' tid = T tid" if "M j = Some x" "j \<noteq> mid" "tid \<in> set (m_targets x)" for j x tid
    using maps_inv_disjoint[OF inv that(1) m that(2)] that(3) T' by auto
  show ?thesis
  proof (rule maps_invI)
    show "0 < nc" using inv by (rule maps_inv_nc)
    show "0 < j \<and> j < nc" if "C j = Some c" for j c using maps_inv_cat[OF inv that] .
    show "t_id x = j \<and> j < nt" if "T' j = Some x" for j x
    proof -
      have "T j = Some x" using that T'[of j] by (auto split: if_splits)
      then show ?thesis using maps_inv_target[OF inv] by blast
    qed
    show "j < nm" if "(M(mid := None)) j = Some x" for j x
      using keep[OF that] maps_inv_mission_key[OF inv] by blast
    show "T' tid \<noteq> None" if "(M(mid := None)) j = Some x" "tid \<in> set (m_targets x)" for j x tid
      using keep[OF that(1)] same[of j x tid] that(2) maps_inv_resolved[OF inv, of j x tid] by auto
    show "m_is_complete x \<longleftrightarrow> (\<forall>tid \<in> set (m_targets x). \<exists>y. T' tid = Some y \<and> t_is_complete y)"
      if "(M(mid := None)) j = Some x" for j x
    proof -
      have x: "M j = Some x" "j \<noteq> mid" using keep[OF that] by auto
      have "\<forall>tid \<in> set (m_targets x). T' tid = T tid" using same[OF x] by blast
      then show ?thesis using maps_inv_flag[OF inv x(1)] by simp
    qed
    show "set (m_targets m1) \<inter> set (m_targets m2) = {}"
      if "(M(mid := None)) k1 = Some m1" "(M(mid := None)) k2 = Some m2" "k1 \<noteq> k2" for k1 k2 m1 m2
      using keep[OF that(1)] keep[OF that(2)] that(3) maps_inv_disjoint[OF inv] by blast
  qed
qed

subsection \<open>Reading a mission, creating targets\<close>

lemma db_inv_resolved:
  "db_inv s \<Longrightarrow> map_of (fake_missions_db s) k = Some m \<Longrightarrow> tid \<in> set (m_targets m) \<Longrightarrow>
     map_of (fake_targets_db s) tid \<noteq> None"
  unfolding db_inv_def maps_inv_def by blast

lemma fetched_targets_inv:
  "db_inv s \<Longrightarrow> map_of (fake_missions_db s) mid = Some m \<Longrightarrow> fetched_targets s m = m_targets m"
  unfolding fetched_targets_def filter_id_conv using db_inv_resolved by blast

lemma get_mission_inv:
  assumes "db_inv s"
  shows "get_mission mid s = (map_of (fake_missions_db s) mid, s)"
proof (cases "map_of (fake_missions_db s) mid")
  case None
  then show ?thesis by (simp add: get_mission_def)
next
  case (Some m)
  have f: "fetched_targets s m = m_targets m" using fetched_targets_inv[OF assms Some] .
  have "AList.update mid m (fake_missions_db s) = fake_missions_db s"
    using Some by (rule update_triv)
  then show ?thesis using Some f by (simp add: get_mission_def)
qed

lemma create_targets_Cons:
  "create_targets (tc # tcs) acc s = create_targets tcs (acc @ [next_target_id s]) (add_target tc s)"
  by (simp add: Let_def add_target_def new_target_def)

lemma add_target_simps:
  "fake_cats_db (add_target tc s) = fake_cats_db s"
  "fake_missions_db (add_target tc s) = fake_missions_db s"
  "next_cat_id (add_target tc s) = next_cat_id s"
  "next_mission_id (add_target tc s) = next_mission_id s"
  "next_target_id (add_target tc s) = next_target_id s + 1"
  "map_of (fake_targets_db (add_target tc s)) = (map_of (fake_targets_db s))(next_target_id s \<mapsto> new_target tc (next_target_id s))"
  by (simp_all add: add_target_def update_conv')

lemma create_targets_other:
  "create_targets tcs acc s = (ids, s') \<Longrightarrow>
     fake_cats_db s' = fake_cats_db s \<and> fake_missions_db s' = fake_missions_db s \<and>
     next_cat_id s' = next_cat_id s \<and> next_mission_id s' = next_mission_id s \<and>
     next_target_id s' = next_target_id s + int (length tcs)"
proof (induction tcs arbitrary: acc s)
  case Nil
  then show ?case by simp
next
  case (Cons tc tcs)
  from Cons.prems have "create_targets tcs (acc @ [next_target_id s]) (add_target tc s) = (ids, s')"
    by (simp only: create_targets_Cons)
  from Cons.IH[OF this] show ?case by (simp add: add_target_simps)
qed

lemma create_targets_ids:
  "create_targets tcs acc s = (ids, s') \<Longrightarrow>
     set ids = set acc \<union> {next_target_id s ..< next_target_id s + int (length tcs)}"
proof (induction tcs arbitrary: acc s)
  case Nil
  then show ?case by simp
next
  case (Cons tc tcs)
  from Cons.prems have "create_targets tcs (acc @ [next_target_id s]) (add_target tc s) = (ids, s')"
    by (simp only: create_targets_Cons)
  from Cons.IH[OF this] have "set ids = set acc \<union> {next_target_id s} \<union> {next_target_id s + 1 ..< next_target_id s + 1 + int (length tcs)}"
    by (simp add: add_target_simps)
  moreover have "{next_target_id s} \<union> {next_target_id s + 1 ..< next_target_id s + 1 + int (length tcs)} = {next_target_id s ..< next_target_id s + int (length (tc # tcs))}"
    by (simp add: set_eq_iff) linarith
  ultimately show ?case by blast
qed

lemma create_targets_old:
  "create_targets tcs acc s = (ids, s') \<Longrightarrow> k < next_target_id s \<or> next_target_id s + int (length tcs) \<le> k \<Longrightarrow>
     map_of (fake_targets_db s') k = map_of (fake_targets_db s) k"
proof (induction tcs arbitrary: acc s)
  case Nil
  then show ?case by simp
next
  case (Cons tc tcs)
  from Cons.prems have ct: "create_targets tcs (acc @ [next_target_id s]) (add_target tc s) = (ids, s')"
    by (simp only: create_targets_Cons)
  have "k < next_target_id (add_target tc s) \<or> next_target_id (add_target tc s) + int (length tcs) \<le> k"
    using Cons.prems(2) by (simp add: add_target_simps) linarith
  from Cons.IH[OF ct this] have "map_of (fake_targets_db s') k = map_of (fake_targets_db (add_target tc s)) k" .
  moreover have "k \<noteq> next_target_id s" using Cons.prems(2) by simp linarith
  ultimately show ?case by (simp add: add_target_simps)
qed

lemma create_targets_new:
  "create_targets tcs acc s = (ids, s') \<Longrightarrow> next_target_id s \<le> k \<Longrightarrow> k < next_target_id s + int (length tcs) \<Longrightarrow>
     \<exists>t. map_of (fake_targets_db s') k = Some t \<and> t_id t = k \<and> \<not> t_is_complete t"
proof (induction tcs arbitrary: acc s)
  case Nil
  then show ?case by simp
next
  case (Cons tc tcs)
  from Cons.prems have ct: "create_targets tcs (acc @ [next_target_id s]) (add_target tc s) = (ids, s')"
    by (simp only: create_targets_Cons)
  show ?case
  proof (cases "k = next_target_id s")
    case True
    have "map_of (fake_targets_db s') k = map_of (fake_targets_db (add_target tc s)) k"
      using ct by (rule create_targets_old) (simp add: add_target_simps True)
    then show ?thesis using True by (simp add: add_target_simps new_target_def)
  next
    case False
    have "next_target_id (add_target tc s) \<le> k" "k < next_target_id (add_target tc s) + int (length tcs)"
      using False Cons.prems(2,3) by (simp_all add: add_target_simps)
    then show ?thesis using Cons.IH[OF ct] by blast
  qed
qed

lemma create_targets_distinct:
  "create_targets tcs acc s = (ids, s') \<Longrightarrow> distinct (map fst (fake_targets_db s)) \<Longrightarrow>
     distinct (map fst (fake_targets_db s'))"
proof (induction tcs arbitrary: acc s)
  case Nil
  then show ?case by simp
next
  case (Cons tc tcs)
  from Cons.prems have ct: "create_targets tcs (acc @ [next_target_id s]) (add_target tc s) = (ids, s')"
    by (simp only: create_targets_Cons)
  have "distinct (map fst (fake_targets_db (add_target tc s)))"
    using Cons.prems(2) by (simp add: add_target_def distinct_update)
  from Cons.IH[OF ct this] show ?case .
qed

lemma db_invD:
  assumes "db_inv s"
  shows "distinct (map fst (fake_cats_db s))" "distinct (map fst (fake_missions_db s))"
    "distinct (map fst (fake_targets_db s))"
    "maps_inv (map_of (fake_cats_db s)) (map_of (fake_missions_db s))
       (map_of (fake_targets_db s)) (next_cat_id s) (next_mission_id s) (next_target_id s)"
  using assms unfolding db_inv_def by blast+

lemma db_inv_reset: "db_inv (reset_db_state s)"
  unfolding db_inv_def reset_db_state_def
  by (simp add: maps_inv_def)

lemma db_inv_create_cat:
  assumes "db_inv s"
  shows "db_inv (snd (create_cat cat_in s))"
proof -
  note d = db_invD[OF assms]
  show ?thesis
    unfolding create_cat_def db_inv_def
    by (simp add: Let_def d distinct_update update_conv' maps_inv_cat_new[OF d(4)] del: map_of_eq_Some_iff)
qed

lemma db_inv_update_cat_salary:
  assumes "db_inv s"
  shows "db_inv (snd (update_cat_salary cat_id salary s))"
proof (cases "map_of (fake_cats_db s) cat_id")
  case None
  then show ?thesis using assms by (simp add: update_cat_salary_def)
next
  case (Some cat)
  note d = db_invD[OF assms]
  have "map_of (fake_cats_db s) cat_id \<noteq> None" using Some by simp
  from maps_inv_cat_upd[OF d(4) this] show ?thesis
    unfolding update_cat_salary_def db_inv_def using Some
    by (simp add: Let_def d distinct_update update_conv' del: map_of_eq_Some_iff)
qed

lemma db_inv_cats_delete:
  assumes "db_inv s"
  shows "db_inv (s\<lparr>fake_cats_db := AList.delete cat_id (fake_cats_db s)\<rparr>)"
proof -
  note d = db_invD[OF assms]
  show ?thesis unfolding db_inv_def
    by (simp add: d distinct_delete delete_conv' maps_inv_cat_del[OF d(4)] del: map_of_eq_Some_iff)
qed

lemma delete_cat_inv:
  assumes "db_inv s"
  shows "delete_cat cat_id s =
     (if on_active_mission s cat_id then (Inl (HTTPException HTTP_400_BAD_REQUEST), s)
      else (Inr (map_of (fake_cats_db s) cat_id),
            s\<lparr>fake_cats_db := AList.delete cat_id (fake_cats_db s)\<rparr>))"
  unfolding delete_cat_def on_active_mission_def
  by (simp add: get_mission_inv[OF assms] split: option.splits)

lemma db_inv_delete_cat:
  assumes "db_inv s"
  shows "db_inv (snd (delete_cat cat_id s))"
  by (simp add: delete_cat_inv[OF assms] assms db_inv_cats_delete)

lemma get_missions_fold_inv:
  "db_inv s \<Longrightarrow> fold (\<lambda>(k, mission) st. snd (get_mission k st)) missions s = s"
  by (induction missions) (auto simp: get_mission_inv)

lemma get_missions_inv:
  "db_inv s \<Longrightarrow> snd (get_missions skip limit s) = s"
  by (simp add: get_missions_def Let_def get_missions_fold_inv)

lemma set_map_filter: "set (List.map_filter f xs) = {y. \<exists>x \<in> set xs. f x = Some y}"
  by (induction xs) (auto simp: List.map_filter_simps split: option.splits)

lemma list_all_mission_targets:
  "list_all P (mission_targets s m) \<longleftrightarrow>
     (\<forall>tid \<in> set (m_targets m). \<forall>t. map_of (fake_targets_db s) tid = Some t \<longrightarrow> P t)"
  unfolding mission_targets_def list_all_iff set_map_filter by blast

lemma member_mission_targets:
  assumes "db_inv s" "map_of (fake_targets_db s) tid = Some t"
  shows "t \<in> set (mission_targets s m) \<longleftrightarrow> tid \<in> set (m_targets m)"
proof -
  have id: "k = tid" if "map_of (fake_targets_db s) k = Some t" for k
    using maps_inv_target[OF db_invD(4)[OF assms(1)]] that assms(2) by metis
  have "t \<in> set (mission_targets s m) \<longleftrightarrow>
      (\<exists>k \<in> set (m_targets m). map_of (fake_targets_db s) k = Some t)"
    unfolding mission_targets_def set_map_filter by blast
  also have "\<dots> \<longleftrightarrow> tid \<in> set (m_targets m)" using id assms(2) by blast
  finally show ?thesis .
qed

lemma map_of_fold_delete:
  "map_of (fold AList.delete ks al) k = (if k \<in> set ks then None else map_of al k)"
  by (induction ks arbitrary: al) (auto simp: delete_conv')

lemma distinct_fold_delete:
  "distinct (map fst al) \<Longrightarrow> distinct (map fst (fold AList.delete ks al))"
  by (induction ks arbitrary: al) (auto simp: distinct_delete)

lemma db_inv_create_mission:
  assumes inv: "db_inv s" and v: "valid_MissionCreate mission_in"
  shows "db_inv (snd (create_mission mission_in s))"
proof -
  note d = db_invD[OF inv]
  obtain ids s1 where ct: "create_targets (mc_targets mission_in) [] s = (ids, s1)"
    by (cases "create_targets (mc_targets mission_in) [] s") auto
  define n where "n = length (mc_targets mission_in)"
  note o = create_targets_other[OF ct, folded n_def]
  have idset: "set ids = {next_target_id s ..< next_target_id s + int n}"
    using create_targets_ids[OF ct] by (simp add: n_def)
  have n: "0 < n" using v by (auto simp: valid_MissionCreate_def n_def)
  define m' where "m' = \<lparr>m_is_complete = False, m_id = next_mission_id s1, m_cat_id = None, m_targets = ids\<rparr>"
  have mi: "maps_inv (map_of (fake_cats_db s)) ((map_of (fake_missions_db s))(next_mission_id s \<mapsto> m'))
      (map_of (fake_targets_db s1)) (next_cat_id s) (next_mission_id s + 1) (next_target_id s + int n)"
  proof (rule maps_inv_create_mission[OF d(4)])
    show "map_of (fake_targets_db s1) k = map_of (fake_targets_db s) k"
      if "k < next_target_id s \<or> next_target_id s + int n \<le> k" for k
      using create_targets_old[OF ct] that by (simp add: n_def)
    show "\<exists>t. map_of (fake_targets_db s1) k = Some t \<and> t_id t = k \<and> \<not> t_is_complete t"
      if "next_target_id s \<le> k" "k < next_target_id s + int n" for k
      using create_targets_new[OF ct] that by (simp add: n_def)
    show "set (m_targets m') = {next_target_id s ..< next_target_id s + int n}"
      using idset by (simp add: m'_def)
    show "next_target_id s < next_target_id s + int n" using n by simp
    show "\<not> m_is_complete m'" by (simp add: m'_def)
  qed
  have s': "snd (create_mission mission_in s) =
      s1\<lparr>fake_missions_db := AList.update (next_mission_id s1) m' (fake_missions_db s1),
         next_mission_id := next_mission_id s1 + 1\<rparr>"
    by (simp add: create_mission_def ct Let_def m'_def)
  show ?thesis
    unfolding s' db_inv_def using mi o d(1,2) create_targets_distinct[OF ct d(3)]
    by (simp add: distinct_update update_conv' del: map_of_eq_Some_iff)
qed

lemma others_complete_iff:
  "others_complete s mission target_id \<longleftrightarrow>
     (\<forall>k \<in> set (m_targets mission). k = target_id \<or>
        (\<exists>t. map_of (fake_targets_db s) k = Some t \<and> t_is_complete t))"
  unfolding others_complete_def by (rule ball_cong[OF refl]) (auto split: option.splits)

lemma all_targets_complete_inv:
  assumes inv: "db_inv s" and m: "map_of (fake_missions_db s) mid = Some mission"
    and t': "t_is_complete t'"
  shows "list_all t_is_complete
           (mission_targets (s\<lparr>fake_targets_db := AList.update tid t' (fake_targets_db s)\<rparr>) mission)
         \<longleftrightarrow> others_complete s mission tid"
proof -
  let ?T = "map_of (fake_targets_db s)"
  have r: "\<exists>t. ?T k = Some t" if "k \<in> set (m_targets mission)" for k
    using db_inv_resolved[OF inv m that] by blast
  have "(\<forall>t. (?T(tid \<mapsto> t')) k = Some t \<longrightarrow> t_is_complete t) \<longleftrightarrow>
        (k = tid \<or> (\<exists>t. ?T k = Some t \<and> t_is_complete t))"
    if "k \<in> set (m_targets mission)" for k
  proof (cases "k = tid")
    case True
    then show ?thesis using t' by simp
  next
    case False
    then show ?thesis using r[OF that] by auto
  qed
  then show ?thesis
    unfolding list_all_mission_targets others_complete_iff
    by (simp add: update_conv')
qed

lemma assign_cat_to_mission_inv:
  assumes "db_inv s"
  shows "assign_cat_to_mission mission_id cat_id s =
    (case map_of (fake_missions_db s) mission_id of
       None \<Rightarrow> (Inl (HTTPException HTTP_404_NOT_FOUND), s)
     | Some mission \<Rightarrow>
         (case map_of (fake_cats_db s) cat_id of
            None \<Rightarrow> (Inl (HTTPException HTTP_404_NOT_FOUND), s)
          | Some cat \<Rightarrow>
              if m_cat_id mission \<noteq> None then (Inl (HTTPException HTTP_409_CONFLICT), s)
              else if on_active_mission s cat_id then (Inl (HTTPException HTTP_409_CONFLICT), s)
              else (Inr (Some (mission\<lparr>m_cat_id := Some cat_id\<rparr>)),
                    s\<lparr>fake_missions_db :=
                        AList.update mission_id (mission\<lparr>m_cat_id := Some cat_id\<rparr>) (fake_missions_db s),
                      fake_cats_db :=
                        AList.update cat_id (cat\<lparr>c_mission_id := Some mission_id\<rparr>) (fake_cats_db s)\<rparr>)))"
  unfolding assign_cat_to_mission_def on_active_mission_def get_cat_def
  by (simp add: get_mission_inv[OF assms] Let_def split: option.splits)

lemma update_target_notes_inv:
  assumes "db_inv s"
  shows "update_target_notes mission_id target_id notes s =
    (case map_of (fake_missions_db s) mission_id of
       None \<Rightarrow> (Inl (HTTPException HTTP_404_NOT_FOUND), s)
     | Some mission \<Rightarrow>
         if m_is_complete mission then (Inl (HTTPException HTTP_400_BAD_REQUEST), s)
         else
           (case map_of (fake_targets_db s) target_id of
              None \<Rightarrow> (Inl (HTTPException HTTP_404_NOT_FOUND), s)
            | Some target \<Rightarrow>
                if target_id \<notin> set (m_targets mission)
                then (Inl (HTTPException HTTP_404_NOT_FOUND), s)
                else if t_is_complete target
                then (Inl (HTTPException HTTP_400_BAD_REQUEST), s)
                else (Inr (Some (target\<lparr>t_notes := Some notes\<rparr>)),
                      s\<lparr>fake_targets_db :=
                          AList.update target_id (target\<lparr>t_notes := Some notes\<rparr>) (fake_targets_db s)\<rparr>)))"
  unfolding update_target_notes_def
  by (simp add: get_mission_inv[OF assms] member_mission_targets[OF assms] Let_def split: option.splits)

lemma delete_mission_inv:
  assumes "db_inv s"
  shows "delete_mission mission_id s =
    (case map_of (fake_missions_db s) mission_id of
       None \<Rightarrow> (Inr None, s)
     | Some mission \<Rightarrow>
         if (case m_cat_id mission of
               None \<Rightarrow> False
             | Some cid \<Rightarrow>
                 (case map_of (fake_cats_db s) cid of
                    None \<Rightarrow> False
                  | Some cat \<Rightarrow> c_mission_id cat = Some mission_id \<and> \<not> m_is_complete mission))
         then (Inl (HTTPException HTTP_400_BAD_REQUEST), s)
         else (Inr (Some mission),
               s\<lparr>fake_targets_db := fold AList.delete (m_targets mission) (fake_targets_db s),
                 fake_missions_db := AList.delete mission_id (fake_missions_db s)\<rparr>))"
  unfolding delete_mission_def get_cat_def
  by (simp add: get_mission_inv[OF assms] Let_def split: option.splits)

lemma mark_target_complete_inv:
  assumes "db_inv s"
  shows "mark_target_complete mission_id target_id s =
    (case map_of (fake_missions_db s) mission_id of
       None \<Rightarrow> (Inl (HTTPException HTTP_404_NOT_FOUND), s)
     | Some mission \<Rightarrow>
         if m_is_complete mission then (Inl (HTTPException HTTP_400_BAD_REQUEST), s)
         else
           (case map_of (fake_targets_db s) target_id of
              None \<Rightarrow> (Inl (HTTPException HTTP_404_NOT_FOUND), s)
            | Some target \<Rightarrow>
                if target_id \<notin> set (m_targets mission)
                then (Inl (HTTPException HTTP_404_NOT_FOUND), s)
                else if t_is_complete target then (Inr (Some target), s)
                else
                  (Inr (Some (target\<lparr>t_is_complete := True\<rparr>)),
                   if others_complete s mission target_id then
                     release_cat mission
                       (s\<lparr>fake_targets_db :=
                            AList.update target_id (target\<lparr>t_is_complete := True\<rparr>) (fake_targets_db s),
                          fake_missions_db :=
                            AList.update mission_id (mission\<lparr>m_is_complete := True\<rparr>) (fake_missions_db s)\<rparr>)
                   else s\<lparr>fake_targets_db :=
                            AList.update target_id (target\<lparr>t_is_complete := True\<rparr>) (fake_targets_db s)\<rparr>)))"
proof (cases "map_of (fake_missions_db s) mission_id")
  case None
  then show ?thesis by (simp add: mark_target_complete_def get_mission_inv[OF assms])
next
  case (Some mission)
  note M = this
  show ?thesis
  proof (cases "map_of (fake_targets_db s) target_id")
    case None
    then show ?thesis using M by (simp add: mark_target_complete_def get_mission_inv[OF assms])
  next
    case (Some target)
    note T = this
    have a: "list_all t_is_complete
           (mission_targets (s\<lparr>fake_targets_db := AList.update target_id (target\<lparr>t_is_complete := True\<rparr>) (fake_targets_db s)\<rparr>) mission)
         \<longleftrightarrow> others_complete s mission target_id"
      by (rule all_targets_complete_inv[OF assms M]) simp
    show ?thesis
    proof (cases "m_is_complete mission \<or> target_id \<notin> set (m_targets mission) \<or> t_is_complete target")
      case True
      then show ?thesis using M T
        by (auto simp add: mark_target_complete_def get_mission_inv[OF assms] member_mission_targets[OF assms T])
    next
      case False
      show ?thesis
      proof (cases "others_complete s mission target_id")
        case True
        then show ?thesis using M T False a
          by (cases "m_cat_id mission")
            (simp_all add: mark_target_complete_def get_mission_inv[OF assms]
              member_mission_targets[OF assms T] Let_def release_cat_def split: option.splits)
      next
        case False
        then show ?thesis using M T \<open>\<not> (m_is_complete mission \<or> target_id \<notin> set (m_targets mission) \<or> t_is_complete target)\<close> a
          by (simp add: mark_target_complete_def get_mission_inv[OF assms]
              member_mission_targets[OF assms T] Let_def)
      qed
    qed
  qed
qed

lemma db_inv_cat_update:
  assumes inv: "db_inv s" and c: "map_of (fake_cats_db s) cid = Some cat"
  shows "db_inv (s\<lparr>fake_cats_db := AList.update cid cat' (fake_cats_db s)\<rparr>)"
proof -
  note d = db_invD[OF inv]
  have "map_of (fake_cats_db s) cid \<noteq> None" using c by simp
  from maps_inv_cat_upd[OF d(4) this] show ?thesis
    unfolding db_inv_def
    by (simp add: d distinct_update update_conv' del: map_of_eq_Some_iff)
qed

lemma db_inv_release_cat:
  assumes "db_inv s"
  shows "db_inv (release_cat mission s)"
  unfolding release_cat_def
  by (auto simp: assms db_inv_cat_update[OF assms] split: option.splits)

lemma db_inv_mission_update:
  assumes inv: "db_inv s" and m: "map_of (fake_missions_db s) mid = Some m"
    and tg: "m_targets m' = m_targets m" and fl: "m_is_complete m' = m_is_complete m"
  shows "db_inv (s\<lparr>fake_missions_db := AList.update mid m' (fake_missions_db s)\<rparr>)"
proof -
  note d = db_invD[OF inv]
  from maps_inv_mission_upd[OF d(4) m tg fl] show ?thesis
    unfolding db_inv_def
    by (simp add: d distinct_update update_conv' del: map_of_eq_Some_iff)
qed

lemma db_inv_target_mission_update:
  assumes inv: "db_inv s" and t: "map_of (fake_targets_db s) k = Some t" and tid: "t_id t' = t_id t"
    and m: "map_of (fake_missions_db s) mid = Some m" and km: "k \<in> set (m_targets m)"
    and tg: "m_targets m' = m_targets m"
    and fl: "m_is_complete m' \<longleftrightarrow>
               (\<forall>tid \<in> set (m_targets m). \<exists>x. ((map_of (fake_targets_db s))(k \<mapsto> t')) tid = Some x \<and> t_is_complete x)"
  shows "db_inv (s\<lparr>fake_targets_db := AList.update k t' (fake_targets_db s),
                   fake_missions_db := AList.update mid m' (fake_missions_db s)\<rparr>)"
proof -
  note d = db_invD[OF inv]
  from maps_inv_target_mission_upd[OF d(4) t tid m km tg fl] show ?thesis
    unfolding db_inv_def
    by (simp add: d distinct_update update_conv' del: map_of_eq_Some_iff)
qed

lemma db_inv_assign_cat_to_mission:
  assumes inv: "db_inv s"
  shows "db_inv (snd (assign_cat_to_mission mission_id cat_id s))"
proof (cases "map_of (fake_missions_db s) mission_id")
  case None
  then show ?thesis by (simp add: assign_cat_to_mission_inv[OF inv] inv)
next
  case (Some mission)
  note M = this
  show ?thesis
  proof (cases "map_of (fake_cats_db s) cat_id")
    case None
    then show ?thesis using M by (simp add: assign_cat_to_mission_inv[OF inv] inv)
  next
    case (Some cat)
    have 1: "db_inv (s\<lparr>fake_missions_db := AList.update mission_id (mission\<lparr>m_cat_id := Some cat_id\<rparr>) (fake_missions_db s)\<rparr>)"
      by (rule db_inv_mission_update[OF inv M]) simp_all
    have 2: "db_inv (s\<lparr>fake_missions_db := AList.update mission_id (mission\<lparr>m_cat_id := Some cat_id\<rparr>) (fake_missions_db s),
        fake_cats_db := AList.update cat_id (cat\<lparr>c_mission_id := Some mission_id\<rparr>) (fake_cats_db s)\<rparr>)"
      using db_inv_cat_update[OF 1, of cat_id cat] Some by simp
    show ?thesis using M Some 2 by (simp add: assign_cat_to_mission_inv[OF inv] inv)
  qed
qed

lemma db_inv_target_update:
  assumes inv: "db_inv s" and t: "map_of (fake_targets_db s) k = Some t" and tid: "t_id t' = t_id t"
    and m: "map_of (fake_missions_db s) mid = Some m" and km: "k \<in> set (m_targets m)"
    and fl: "m_is_complete m \<longleftrightarrow>
               (\<forall>tid \<in> set (m_targets m). \<exists>x. ((map_of (fake_targets_db s))(k \<mapsto> t')) tid = Some x \<and> t_is_complete x)"
  shows "db_inv (s\<lparr>fake_targets_db := AList.update k t' (fake_targets_db s)\<rparr>)"
proof -
  have "AList.update mid m (fake_missions_db s) = fake_missions_db s"
    using m by (rule update_triv)
  then show ?thesis
    using db_inv_target_mission_update[OF inv t tid m km refl fl] by simp
qed

lemma db_inv_update_target_notes:
  assumes inv: "db_inv s"
  shows "db_inv (snd (update_target_notes mission_id target_id notes s))"
proof (cases "map_of (fake_missions_db s) mission_id")
  case None
  then show ?thesis by (simp add: update_target_notes_inv[OF inv] inv)
next
  case (Some mission)
  note M = this
  show ?thesis
  proof (cases "map_of (fake_targets_db s) target_id")
    case None
    then show ?thesis using M by (simp add: update_target_notes_inv[OF inv] inv)
  next
    case (Some target)
    note T = this
    show ?thesis
    proof (cases "m_is_complete mission \<or> target_id \<notin> set (m_targets mission) \<or> t_is_complete target")
      case True
      then show ?thesis using M T by (auto simp: update_target_notes_inv[OF inv] inv)
    next
      case False
      have "\<not> (\<exists>x. ((map_of (fake_targets_db s))(target_id \<mapsto> target\<lparr>t_notes := Some notes\<rparr>)) target_id = Some x \<and> t_is_complete x)"
        using False by simp
      then have fl: "m_is_complete mission \<longleftrightarrow>
          (\<forall>tid \<in> set (m_targets mission). \<exists>x. ((map_of (fake_targets_db s))(target_id \<mapsto> target\<lparr>t_notes := Some notes\<rparr>)) tid = Some x \<and> t_is_complete x)"
        using False by blast
      have "db_inv (s\<lparr>fake_targets_db := AList.update target_id (target\<lparr>t_notes := Some notes\<rparr>) (fake_targets_db s)\<rparr>)"
        by (rule db_inv_target_update[OF inv T _ M _ fl]) (use False in simp_all)
      then show ?thesis using M T False by (simp add: update_target_notes_inv[OF inv])
    qed
  qed
qed

lemma db_inv_mark_target_complete:
  assumes inv: "db_inv s"
  shows "db_inv (snd (mark_target_complete mission_id target_id s))"
proof (cases "map_of (fake_missions_db s) mission_id")
  case None
  then show ?thesis by (simp add: mark_target_complete_inv[OF inv] inv)
next
  case (Some mission)
  note M = this
  show ?thesis
  proof (cases "map_of (fake_targets_db s) target_id")
    case None
    then show ?thesis using M by (simp add: mark_target_complete_inv[OF inv] inv)
  next
    case (Some target)
    note T = this
    show ?thesis
    proof (cases "m_is_complete mission \<or> target_id \<notin> set (m_targets mission) \<or> t_is_complete target")
      case True
      then show ?thesis using M T by (auto simp: mark_target_complete_inv[OF inv] inv)
    next
      case False
      let ?t' = "target\<lparr>t_is_complete := True\<rparr>"
      let ?T' = "(map_of (fake_targets_db s))(target_id \<mapsto> ?t')"
      have r: "\<exists>t. map_of (fake_targets_db s) k = Some t" if "k \<in> set (m_targets mission)" for k
        using db_inv_resolved[OF inv M that] by blast
      have oc: "others_complete s mission target_id \<longleftrightarrow>
          (\<forall>tid \<in> set (m_targets mission). \<exists>x. ?T' tid = Some x \<and> t_is_complete x)"
        unfolding others_complete_iff by (rule ball_cong[OF refl]) auto
      show ?thesis
      proof (cases "others_complete s mission target_id")
        case True
        have "db_inv (s\<lparr>fake_targets_db := AList.update target_id ?t' (fake_targets_db s),
                   fake_missions_db := AList.update mission_id (mission\<lparr>m_is_complete := True\<rparr>) (fake_missions_db s)\<rparr>)"
          by (rule db_inv_target_mission_update[OF inv T _ M]) (use False True oc in simp_all)
        from db_inv_release_cat[OF this, of mission] show ?thesis
          using M T False True by (simp add: mark_target_complete_inv[OF inv])
      next
        case nc: False
        have "db_inv (s\<lparr>fake_targets_db := AList.update target_id ?t' (fake_targets_db s)\<rparr>)"
          by (rule db_inv_target_update[OF inv T _ M]) (use False nc oc in simp_all)
        then show ?thesis using M T False nc by (simp add: mark_target_complete_inv[OF inv])
      qed
    qed
  qed
qed

lemma db_inv_delete_mission:
  assumes inv: "db_inv s"
  shows "db_inv (snd (delete_mission mission_id s))"
proof (cases "map_of (fake_missions_db s) mission_id")
  case None
  then show ?thesis by (simp add: delete_mission_inv[OF inv] inv)
next
  case (Some mission)
  note d = db_invD[OF inv]
  have "maps_inv (map_of (fake_cats_db s)) ((map_of (fake_missions_db s))(mission_id := None))
          (map_of (fold AList.delete (m_targets mission) (fake_targets_db s)))
          (next_cat_id s) (next_mission_id s) (next_target_id s)"
    by (rule maps_inv_delete_mission[OF d(4) Some]) (simp add: map_of_fold_delete)
  then have "db_inv (s\<lparr>fake_targets_db := fold AList.delete (m_targets mission) (fake_targets_db s),
                 fake_missions_db := AList.delete mission_id (fake_missions_db s)\<rparr>)"
    unfolding db_inv_def
    by (simp add: d distinct_delete distinct_fold_delete delete_conv' del: map_of_eq_Some_iff)
  then show ?thesis using Some inv by (simp add: delete_mission_inv[OF inv])
qed

lemma snd_update_spy_cat_salary:
  "snd (update_spy_cat_salary cat_id salary_update s) =
     (case cu_salary salary_update of None \<Rightarrow> s
      | Some salary \<Rightarrow> snd (update_cat_salary cat_id salary s))"
  by (simp add: update_spy_cat_salary_def split: option.splits prod.splits)

lemma snd_delete_spy_cat: "snd (delete_spy_cat cat_id s) = snd (delete_cat cat_id s)"
  by (simp add: delete_spy_cat_def split: option.splits prod.splits sum.splits)

lemma snd_get_single_mission: "snd (get_single_mission mission_id s) = snd (get_mission mission_id s)"
  by (simp add: get_single_mission_def split: option.splits prod.splits)

lemma snd_assign_cat_to_a_mission:
  "snd (assign_cat_to_a_mission mission_id cat_id s) = snd (assign_cat_to_mission mission_id cat_id s)"
  by (simp add: assign_cat_to_a_mission_def split: option.splits prod.splits sum.splits)

lemma snd_delete_a_mission: "snd (delete_a_mission mission_id s) = snd (delete_mission mission_id s)"
  by (simp add: delete_a_mission_def split: option.splits prod.splits sum.splits)

lemma db_inv_handle:
  assumes inv: "db_inv s" and v: "valid_request r"
  shows "db_inv (handle lower r s)"
proof (cases r)
  case (CreateCat response cat_in)
  then show ?thesis
    using db_inv_create_cat[OF inv] inv
    by (simp add: create_spy_cat_def split: sum.splits)
next
  case (UpdateSalary cat_id salary_update)
  then show ?thesis
    using db_inv_update_cat_salary[OF inv, of cat_id] inv
    by (simp add: snd_update_spy_cat_salary split: option.splits)
next
  case (DeleteCat cat_id)
  then show ?thesis
    using db_inv_delete_cat[OF inv, of cat_id] by (simp add: snd_delete_spy_cat)
next
  case (CreateMission mission_in)
  then show ?thesis using db_inv_create_mission[OF inv] v by simp
next
  case (ListMissions skip limit)
  then show ?thesis using inv by (simp add: get_missions_inv)
next
  case (GetMission mission_id)
  then show ?thesis using inv
    by (simp add: snd_get_single_mission get_mission_inv)
next
  case (AssignCat mission_id cat_id)
  then show ?thesis
    using db_inv_assign_cat_to_mission[OF inv, of mission_id cat_id]
    by (simp add: snd_assign_cat_to_a_mission)
next
  case (UpdateNotes mission_id target_id new_notes)
  then show ?thesis using db_inv_update_target_notes[OF inv] by simp
next
  case (CompleteTarget mission_id target_id)
  then show ?thesis using db_inv_mark_target_complete[OF inv] by simp
next
  case (DeleteMission mission_id)
  then show ?thesis
    using db_inv_delete_mission[OF inv, of mission_id] by (simp add: snd_delete_a_mission)
qed (use inv in simp_all)

lemma reachable_db_inv: "reachable s \<Longrightarrow> db_inv s"
  by (induction rule: reachable.induct) (simp_all add: db_inv_reset db_inv_handle)

lemma reachable_serve:
  "reachable s \<Longrightarrow> list_all valid_request rs \<Longrightarrow> reachable (serve lower rs s)"
  unfolding serve_def
  by (induction rs arbitrary: s) (auto intro: reachable.served)

lemma db_inv_flags_derived:
  assumes inv: "db_inv s"
  shows "flags_derived s"
proof -
  note d = db_invD[OF inv]
  have "m_is_complete m = list_all t_is_complete (mission_targets s m)"
    if "(k, m) \<in> set (fake_missions_db s)" for k m
  proof -
    have M: "map_of (fake_missions_db s) k = Some m" using that d(2) by simp
    have r: "\<exists>t. map_of (fake_targets_db s) tid = Some t" if "tid \<in> set (m_targets m)" for tid
      using db_inv_resolved[OF inv M that] by blast
    have "list_all t_is_complete (mission_targets s m) \<longleftrightarrow>
        (\<forall>tid \<in> set (m_targets m). \<exists>t. map_of (fake_targets_db s) tid = Some t \<and> t_is_complete t)"
      unfolding list_all_mission_targets using r by (metis option.inject)
    then show ?thesis using maps_inv_flag[OF d(4) M] by simp
  qed
  then show ?thesis unfolding flags_derived_def by blast
qed

section \<open>The derived completion flag (C1)\<close>

text \<open>
  C1: in every reachable store, every stored mission has its completion flag equal to the
  conjunction of the completion flags of its targets, and every request of valid shape
  (mission creation, note update, target completion, assignment, deletions, and all
  others) leads to a store where this holds again.
\<close>

theorem C1_completion_flag_derived:
  assumes "reachable s" and "valid_request r"
  shows "flags_derived s \<and> flags_derived (handle lower r s)"
proof -
  have "db_inv s" using assms(1) by (rule reachable_db_inv)
  moreover from this have "db_inv (handle lower r s)" using assms(2) by (rule db_inv_handle)
  ultimately show ?thesis by (simp add: db_inv_flags_derived)
qed

theorem C1_completion_flag_derived_witness:
  "reachable (serve id [CreateMission ex_mission2, CompleteTarget 1 1] (reset_db_state ex_db0))
   \<and> valid_request (CompleteTarget 1 2 :: int request)
   \<and> flags_derived (serve id [CreateMission ex_mission2, CompleteTarget 1 1] (reset_db_state ex_db0))
   \<and> flags_derived (handle id (CompleteTarget 1 2)
        (serve id [CreateMission ex_mission2, CompleteTarget 1 1] (reset_db_state ex_db0)))
   \<and> map_option m_is_complete (map_of (fake_missions_db (handle id (CompleteTarget 1 2)
        (serve id [CreateMission ex_mission2, CompleteTarget 1 1] (reset_db_state ex_db0)))) 1)
       = Some True"
proof -
  have r: "reachable (serve id [CreateMission ex_mission2, CompleteTarget 1 1] (reset_db_state ex_db0))"
    by (rule reachable_serve[OF reachable.startup]) code_simp
  have v: "valid_request (CompleteTarget 1 2 :: int request)" by simp
  have e: "map_option m_is_complete (map_of (fake_missions_db (handle id (CompleteTarget 1 2)
        (serve id [CreateMission ex_mission2, CompleteTarget 1 1] (reset_db_state ex_db0)))) 1)
       = Some True" by code_simp
  show ?thesis using r v e C1_completion_flag_derived[OF r v, of id] by blast
qed

section \<open>Mission creation (C10)\<close>

text \<open>
  C10: for every mission-creation payload with one to three targets, whatever its
  \<open>is_complete\<close> fields say, the mission returned by \<open>create_mission\<close> is stored under its
  id with completion flag false, it holds at least one target, and every target it holds
  is stored with completion flag false.
\<close>

theorem C10_created_incomplete:
  assumes v: "valid_MissionCreate mission_in"
    and c: "create_mission mission_in s = (mission, s')"
  shows "\<not> m_is_complete mission
     \<and> map_of (fake_missions_db s') (m_id mission) = Some mission
     \<and> m_targets mission \<noteq> []
     \<and> (\<forall>tid \<in> set (m_targets mission).
           \<exists>t. map_of (fake_targets_db s') tid = Some t \<and> \<not> t_is_complete t)"
proof -
  obtain ids s1 where ct: "create_targets (mc_targets mission_in) [] s = (ids, s1)"
    by (cases "create_targets (mc_targets mission_in) [] s") auto
  have m: "mission = \<lparr>m_is_complete = False, m_id = next_mission_id s1, m_cat_id = None, m_targets = ids\<rparr>"
    and s': "s' = s1\<lparr>fake_missions_db := AList.update (next_mission_id s1) mission (fake_missions_db s1),
         next_mission_id := next_mission_id s1 + 1\<rparr>"
    using c by (auto simp: create_mission_def ct Let_def)
  have idset: "set ids = {next_target_id s ..< next_target_id s + int (length (mc_targets mission_in))}"
    using create_targets_ids[OF ct] by simp
  have "next_target_id s \<in> set ids" using idset v by (auto simp: valid_MissionCreate_def)
  then have ne: "ids \<noteq> []" by auto
  have "\<exists>t. map_of (fake_targets_db s1) tid = Some t \<and> \<not> t_is_complete t" if "tid \<in> set ids" for tid
    using create_targets_new[OF ct, of tid] that idset by auto
  then show ?thesis using ne by (simp add: m s' update_conv')
qed

theorem C10_created_incomplete_witness:
  "valid_MissionCreate ex_mission1
   \<and> \<not> m_is_complete (fst (create_mission ex_mission1 ex_db0))
   \<and> m_targets (fst (create_mission ex_mission1 ex_db0)) = [1]
   \<and> map_option t_is_complete (map_of (fake_targets_db (snd (create_mission ex_mission1 ex_db0))) 1)
       = Some False"
proof -
  have v: "valid_MissionCreate ex_mission1" by code_simp
  have e: "m_targets (fst (create_mission ex_mission1 ex_db0)) = [1]" by code_simp
  show ?thesis
    using v e C10_created_incomplete[OF v, of ex_db0 "fst (create_mission ex_mission1 ex_db0)"
        "snd (create_mission ex_mission1 ex_db0)"]
    by auto
qed

lemma release_cat_simps:
  "fake_missions_db (release_cat mission s) = fake_missions_db s"
  "fake_targets_db (release_cat mission s) = fake_targets_db s"
  by (simp_all add: release_cat_def split: option.splits)

lemma release_cat_frees:
  assumes "m_cat_id mission = Some cid" "cid \<noteq> 0" "map_of (fake_cats_db s) cid = Some cat"
  shows "map_of (fake_cats_db (release_cat mission s)) cid = Some (cat\<lparr>c_mission_id := None\<rparr>)"
  using assms by (simp add: release_cat_def update_conv')

section \<open>Completing the last target (C3)\<close>

text \<open>
  C3: in a reachable store, let \<open>tid\<close> be a target of the stored mission \<open>mid\<close> that is not
  complete while all other targets of the mission are. Then \<open>mark_target_complete\<close>
  succeeds and returns the completed target; afterwards the mission is complete, its cat
  reference is what it was, and the cat it refers to, if stored, has no mission reference.
\<close>

theorem C3_last_target_completes_mission:
  assumes re: "reachable s"
    and M: "map_of (fake_missions_db s) mid = Some m"
    and T: "map_of (fake_targets_db s) tid = Some t"
    and mem: "tid \<in> set (m_targets m)"
    and inc: "\<not> t_is_complete t"
    and oc: "others_complete s m tid"
  shows "\<exists>t' s'. mark_target_complete mid tid s = (Inr (Some t'), s') \<and> t_is_complete t'
     \<and> (\<exists>m'. map_of (fake_missions_db s') mid = Some m' \<and> m_is_complete m'
            \<and> m_cat_id m' = m_cat_id m)
     \<and> (\<forall>cid. m_cat_id m = Some cid \<longrightarrow> map_of (fake_cats_db s) cid \<noteq> None \<longrightarrow>
            (\<exists>cat'. map_of (fake_cats_db s') cid = Some cat' \<and> c_mission_id cat' = None))"
proof -
  have inv: "db_inv s" using re by (rule reachable_db_inv)
  note d = db_invD[OF inv]
  have nm: "\<not> m_is_complete m"
    using maps_inv_flag[OF d(4) M] mem T inc by auto
  let ?t' = "t\<lparr>t_is_complete := True\<rparr>"
  let ?s2 = "s\<lparr>fake_targets_db := AList.update tid ?t' (fake_targets_db s),
               fake_missions_db := AList.update mid (m\<lparr>m_is_complete := True\<rparr>) (fake_missions_db s)\<rparr>"
  have res: "mark_target_complete mid tid s = (Inr (Some ?t'), release_cat m ?s2)"
    using M T mem inc oc nm by (simp add: mark_target_complete_inv[OF inv])
  have mis: "map_of (fake_missions_db (release_cat m ?s2)) mid = Some (m\<lparr>m_is_complete := True\<rparr>)"
    by (simp add: release_cat_simps update_conv')
  have cats: "\<exists>cat'. map_of (fake_cats_db (release_cat m ?s2)) cid = Some cat' \<and> c_mission_id cat' = None"
    if "m_cat_id m = Some cid" "map_of (fake_cats_db s) cid \<noteq> None" for cid
  proof -
    from that(2) obtain cat where c: "map_of (fake_cats_db s) cid = Some cat" by blast
    then have "cid \<noteq> 0" using maps_inv_cat[OF d(4)] by fastforce
    moreover have "map_of (fake_cats_db ?s2) cid = Some cat" using c by simp
    ultimately show ?thesis using release_cat_frees[OF that(1)] by fastforce
  qed
  show ?thesis using res mis cats by simp
qed

theorem C3_last_target_completes_mission_witness:
  "reachable (serve id [CreateMission ex_mission2, CreateCat (BreedsData [Some ''Siamese'']) ex_cat,
       AssignCat 1 1, CompleteTarget 1 1] (reset_db_state ex_db0))
   \<and> (\<exists>t' s'. mark_target_complete 1 2
          (serve id [CreateMission ex_mission2, CreateCat (BreedsData [Some ''Siamese'']) ex_cat,
             AssignCat 1 1, CompleteTarget 1 1] (reset_db_state ex_db0)) = (Inr (Some t'), s')
        \<and> t_is_complete t'
        \<and> (\<exists>m'. map_of (fake_missions_db s') 1 = Some m' \<and> m_is_complete m' \<and> m_cat_id m' = Some 1)
        \<and> (\<exists>cat'. map_of (fake_cats_db s') 1 = Some cat' \<and> c_mission_id cat' = None))"
proof -
  let ?s = "serve id [CreateMission ex_mission2, CreateCat (BreedsData [Some ''Siamese'']) ex_cat,
       AssignCat 1 1, CompleteTarget 1 1] (reset_db_state ex_db0)"
  let ?m = "\<lparr>m_is_complete = False, m_id = 1, m_cat_id = Some 1, m_targets = [1, 2]\<rparr>"
  let ?t = "\<lparr>t_name = ''Bob'', t_country = ''DE'', t_notes = Some ''n'', t_is_complete = False, t_id = 2\<rparr>"
  have r: "reachable ?s"
    by (rule reachable_serve[OF reachable.startup]) code_simp
  have M: "map_of (fake_missions_db ?s) 1 = Some ?m" by code_simp
  have T: "map_of (fake_targets_db ?s) 2 = Some ?t" by code_simp
  have mem: "2 \<in> set (m_targets ?m)" by simp
  have inc: "\<not> t_is_complete ?t" by simp
  have oc: "others_complete ?s ?m 2" by code_simp
  have c: "map_of (fake_cats_db ?s) 1 \<noteq> None" by code_simp
  show ?thesis
    using r c C3_last_target_completes_mission[OF r M T mem inc oc] by fastforce
qed

section \<open>Completing a target twice (C4)\<close>

text \<open>
  C4 says that a second mark-complete of the same target always succeeds and returns the
  same target, also when the first call completed the mission. The code refuses any
  change to a complete mission before it looks at the target: with a mission of a single
  target, the first call succeeds and the second one fails with status 400.
\<close>

theorem C4_second_completion_counterexample:
  "fst (mark_target_complete 1 1 (serve id [CreateMission ex_mission1] (reset_db_state ex_db0)))
     = Inr (Some \<lparr>t_name = ''Alice'', t_country = ''FR'', t_notes = None,
                  t_is_complete = True, t_id = 1\<rparr>)
   \<and> fst (mark_target_complete 1 1
          (snd (mark_target_complete 1 1
             (serve id [CreateMission ex_mission1] (reset_db_state ex_db0)))))
     = Inl (HTTPException HTTP_400_BAD_REQUEST)"
  by code_simp

text \<open>
  C4 as amended: in a reachable store, after a successful mark-complete of a target, the
  mission is still stored; if it is not complete, a second mark-complete of the same
  target succeeds, returns the same target and leaves the store as it is; if it is
  complete, the second call fails with status 400 and leaves the store as it is.
\<close>

theorem C4_second_completion:
  assumes re: "reachable s"
    and first: "mark_target_complete mid tid s = (Inr r, s1)"
  shows "\<exists>m1. map_of (fake_missions_db s1) mid = Some m1 \<and>
           mark_target_complete mid tid s1 =
             (if m_is_complete m1 then (Inl (HTTPException HTTP_400_BAD_REQUEST), s1)
              else (Inr r, s1))"
proof -
  have inv: "db_inv s" using re by (rule reachable_db_inv)
  have inv1: "db_inv s1"
    using db_inv_mark_target_complete[OF inv, of mid tid] first by simp
  from first obtain m where M: "map_of (fake_missions_db s) mid = Some m"
    by (cases "map_of (fake_missions_db s) mid") (auto simp: mark_target_complete_inv[OF inv])
  from first M have nm: "\<not> m_is_complete m"
    by (auto simp: mark_target_complete_inv[OF inv] split: if_splits)
  from first M nm obtain t where T: "map_of (fake_targets_db s) tid = Some t"
    by (cases "map_of (fake_targets_db s) tid") (auto simp: mark_target_complete_inv[OF inv])
  from first M nm T have mem: "tid \<in> set (m_targets m)"
    by (auto simp: mark_target_complete_inv[OF inv] split: if_splits)
  show ?thesis
  proof (cases "t_is_complete t")
    case True
    then have "r = Some t" "s1 = s"
      using first M nm T mem by (simp_all add: mark_target_complete_inv[OF inv])
    then show ?thesis using M nm T mem True
      by (simp add: mark_target_complete_inv[OF inv])
  next
    case False
    let ?t' = "t\<lparr>t_is_complete := True\<rparr>"
    have r: "r = Some ?t'"
      using first M nm T mem False by (simp add: mark_target_complete_inv[OF inv])
    have s1: "s1 = (if others_complete s m tid then
                     release_cat m
                       (s\<lparr>fake_targets_db := AList.update tid ?t' (fake_targets_db s),
                          fake_missions_db :=
                            AList.update mid (m\<lparr>m_is_complete := True\<rparr>) (fake_missions_db s)\<rparr>)
                   else s\<lparr>fake_targets_db := AList.update tid ?t' (fake_targets_db s)\<rparr>)"
      using first M nm T mem False by (simp add: mark_target_complete_inv[OF inv])
    define m1 where "m1 = (if others_complete s m tid then m\<lparr>m_is_complete := True\<rparr> else m)"
    have M1: "map_of (fake_missions_db s1) mid = Some m1"
      using M by (simp add: s1 m1_def release_cat_simps update_conv')
    have T1: "map_of (fake_targets_db s1) tid = Some ?t'"
      by (simp add: s1 release_cat_simps update_conv')
    have mem1: "tid \<in> set (m_targets m1)" using mem by (simp add: m1_def)
    have "mark_target_complete mid tid s1 =
             (if m_is_complete m1 then (Inl (HTTPException HTTP_400_BAD_REQUEST), s1)
              else (Inr r, s1))"
      using M1 T1 mem1 r by (simp add: mark_target_complete_inv[OF inv1])
    then show ?thesis using M1 by blast
  qed
qed

theorem C4_second_completion_witness:
  "reachable (serve id [CreateMission ex_mission2] (reset_db_state ex_db0))
   \<and> (\<exists>m1. map_of (fake_missions_db (snd (mark_target_complete 1 1
               (serve id [CreateMission ex_mission2] (reset_db_state ex_db0))))) 1 = Some m1
        \<and> mark_target_complete 1 1 (snd (mark_target_complete 1 1
               (serve id [CreateMission ex_mission2] (reset_db_state ex_db0)))) =
            (if m_is_complete m1 then (Inl (HTTPException HTTP_400_BAD_REQUEST),
                 snd (mark_target_complete 1 1
                   (serve id [CreateMission ex_mission2] (reset_db_state ex_db0))))
             else (Inr (Some \<lparr>t_name = ''Alice'', t_country = ''FR'', t_notes = None,
                              t_is_complete = True, t_id = 1\<rparr>),
                   snd (mark_target_complete 1 1
                     (serve id [CreateMission ex_mission2] (reset_db_state ex_db0))))))"
proof -
  let ?s = "serve id [CreateMission ex_mission2] (reset_db_state ex_db0)"
  let ?r = "Some \<lparr>t_name = ''Alice'', t_country = ''FR'', t_notes = None,
                              t_is_complete = True, t_id = 1\<rparr>"
  have r: "reachable ?s"
    by (rule reachable_serve[OF reachable.startup]) code_simp
  have "fst (mark_target_complete 1 1 ?s) = Inr ?r" by code_simp
  then have f: "mark_target_complete 1 1 ?s = (Inr ?r, snd (mark_target_complete 1 1 ?s))"
    by (metis prod.collapse)
  show ?thesis using r C4_second_completion[OF r f] by blast
qed

section \<open>Updating the notes of a target (C9)\<close>

text \<open>
  C9 says that the update fails with NotFound whenever the target id names no target of
  the mission, also when the mission is complete. The code checks the mission's
  completion first: for a complete mission and a target id that names no target at all,
  the error is status 400, not 404.
\<close>

theorem C9_notes_complete_mission_counterexample:
  "map_option m_is_complete
     (map_of (fake_missions_db
        (serve id [CreateMission ex_mission1, CompleteTarget 1 1] (reset_db_state ex_db0))) 1)
     = Some True
   \<and> map_of (fake_targets_db
        (serve id [CreateMission ex_mission1, CompleteTarget 1 1] (reset_db_state ex_db0))) 999
     = None
   \<and> fst (update_target_notes 1 999 ''x''
          (serve id [CreateMission ex_mission1, CompleteTarget 1 1] (reset_db_state ex_db0)))
     = Inl (HTTPException HTTP_400_BAD_REQUEST)"
  by code_simp

text \<open>
  C9 as amended: in a reachable store the update fails with NotFound (404) if the mission
  is not stored; otherwise with Forbidden (400) if the mission is complete, whatever the
  target id; otherwise with NotFound if the target id names no stored target of the
  mission; otherwise with Forbidden if the target is complete; otherwise it returns the
  target with the given notes and stores it in place of the old one. A failure leaves the
  store as it is, and a success changes nothing but the notes of this target.
\<close>

theorem C9_update_target_notes:
  assumes re: "reachable s"
  shows "(map_of (fake_missions_db s) mid = None \<longrightarrow>
            update_target_notes mid tid new_notes s = (Inl (HTTPException HTTP_404_NOT_FOUND), s))
     \<and> (\<forall>m. map_of (fake_missions_db s) mid = Some m \<longrightarrow>
           (m_is_complete m \<longrightarrow>
              update_target_notes mid tid new_notes s = (Inl (HTTPException HTTP_400_BAD_REQUEST), s))
         \<and> (\<not> m_is_complete m \<longrightarrow>
              (map_of (fake_targets_db s) tid = None \<or> tid \<notin> set (m_targets m) \<longrightarrow>
                 update_target_notes mid tid new_notes s =
                   (Inl (HTTPException HTTP_404_NOT_FOUND), s))
            \<and> (\<forall>t. map_of (fake_targets_db s) tid = Some t \<and> tid \<in> set (m_targets m) \<longrightarrow>
                 (t_is_complete t \<longrightarrow>
                    update_target_notes mid tid new_notes s =
                      (Inl (HTTPException HTTP_400_BAD_REQUEST), s))
               \<and> (\<not> t_is_complete t \<longrightarrow>
                    update_target_notes mid tid new_notes s =
                      (Inr (Some (t\<lparr>t_notes := Some new_notes\<rparr>)),
                       s\<lparr>fake_targets_db :=
                           AList.update tid (t\<lparr>t_notes := Some new_notes\<rparr>)
                             (fake_targets_db s)\<rparr>)))))"
proof -
  have inv: "db_inv s" using re by (rule reachable_db_inv)
  show ?thesis
    by (auto simp: update_target_notes_inv[OF inv] split: option.splits)
qed

theorem C9_update_target_notes_witness:
  "reachable (serve id [CreateMission ex_mission2] (reset_db_state ex_db0))
   \<and> update_target_notes 1 1 ''seen''
        (serve id [CreateMission ex_mission2] (reset_db_state ex_db0)) =
      (Inr (Some \<lparr>t_name = ''Alice'', t_country = ''FR'', t_notes = Some ''seen'',
                  t_is_complete = False, t_id = 1\<rparr>),
       (serve id [CreateMission ex_mission2] (reset_db_state ex_db0))
         \<lparr>fake_targets_db :=
            AList.update 1 \<lparr>t_name = ''Alice'', t_country = ''FR'', t_notes = Some ''seen'',
                             t_is_complete = False, t_id = 1\<rparr>
              (fake_targets_db (serve id [CreateMission ex_mission2] (reset_db_state ex_db0)))\<rparr>)"
proof -
  let ?s = "serve id [CreateMission ex_mission2] (reset_db_state ex_db0)"
  let ?m = "\<lparr>m_is_complete = False, m_id = 1, m_cat_id = None, m_targets = [1, 2]\<rparr>"
  let ?t = "\<lparr>t_name = ''Alice'', t_country = ''FR'', t_notes = None, t_is_complete = False, t_id = 1\<rparr>"
  have r: "reachable ?s"
    by (rule reachable_serve[OF reachable.startup]) code_simp
  have M: "map_of (fake_missions_db ?s) 1 = Some ?m" by code_simp
  have T: "map_of (fake_targets_db ?s) 1 = Some ?t" by code_simp
  have "update_target_notes 1 1 ''seen'' ?s =
      (Inr (Some (?t\<lparr>t_notes := Some ''seen''\<rparr>)),
       ?s\<lparr>fake_targets_db := AList.update 1 (?t\<lparr>t_notes := Some ''seen''\<rparr>) (fake_targets_db ?s)\<rparr>)"
    using C9_update_target_notes[OF r, of 1 1 "''seen''"] M T by simp
  then show ?thesis using r by simp
qed

section \<open>Assigning a cat (C5)\<close>

text \<open>
  C5: in a reachable store, \<open>assign_cat_to_mission\<close> fails with NotFound (404) if the
  mission or the cat is not stored. If both are stored, it fails with Conflict (409) if the
  mission already has a cat reference, and with Conflict if the cat's mission reference
  names a stored mission that is not complete (\<open>on_active_mission\<close>). In the one remaining
  case, which includes a cat whose reference names a complete mission, it succeeds:
  it returns the mission with the cat reference set, and the store is the old one with the
  mission's cat reference and the cat's mission reference both set. Every failure leaves
  the store as it is.
\<close>

theorem C5_assign_cat_to_mission:
  assumes re: "reachable s"
  shows "(map_of (fake_missions_db s) mid = None \<or> map_of (fake_cats_db s) cid = None \<longrightarrow>
            assign_cat_to_mission mid cid s = (Inl (HTTPException HTTP_404_NOT_FOUND), s))
     \<and> (\<forall>m cat. map_of (fake_missions_db s) mid = Some m \<and> map_of (fake_cats_db s) cid = Some cat \<longrightarrow>
           (m_cat_id m \<noteq> None \<longrightarrow>
              assign_cat_to_mission mid cid s = (Inl (HTTPException HTTP_409_CONFLICT), s))
         \<and> (m_cat_id m = None \<and> on_active_mission s cid \<longrightarrow>
              assign_cat_to_mission mid cid s = (Inl (HTTPException HTTP_409_CONFLICT), s))
         \<and> (m_cat_id m = None \<and> \<not> on_active_mission s cid \<longrightarrow>
              assign_cat_to_mission mid cid s =
                (Inr (Some (m\<lparr>m_cat_id := Some cid\<rparr>)),
                 s\<lparr>fake_missions_db :=
                     AList.update mid (m\<lparr>m_cat_id := Some cid\<rparr>) (fake_missions_db s),
                   fake_cats_db :=
                     AList.update cid (cat\<lparr>c_mission_id := Some mid\<rparr>) (fake_cats_db s)\<rparr>)))"
proof -
  have inv: "db_inv s" using re by (rule reachable_db_inv)
  show ?thesis
    by (auto simp: assign_cat_to_mission_inv[OF inv] split: option.splits)
qed

theorem C5_assign_cat_to_mission_witness:
  "reachable (serve id reassign_requests (reset_db_state ex_db0))
   \<and> map_option c_mission_id
        (map_of (fake_cats_db (serve id reassign_requests (reset_db_state ex_db0))) 1)
       = Some (Some 1)
   \<and> map_option m_is_complete
        (map_of (fake_missions_db (serve id reassign_requests (reset_db_state ex_db0))) 1)
       = Some True
   \<and> fst (assign_cat_to_mission 2 1 (serve id reassign_requests (reset_db_state ex_db0))) =
       Inr (Some \<lparr>m_is_complete = False, m_id = 2, m_cat_id = Some 1, m_targets = [2, 3]\<rparr>)"
proof -
  let ?s = "serve id reassign_requests (reset_db_state ex_db0)"
  let ?m = "\<lparr>m_is_complete = False, m_id = 2, m_cat_id = None, m_targets = [2, 3]\<rparr>"
  let ?c = "\<lparr>c_name = ''Tom'', c_years_of_experience = 3, c_breed = ''Siamese'',
             c_salary = 100::int, c_id = 1, c_mission_id = Some 1\<rparr>"
  have r: "reachable ?s"
    by (rule reachable_serve[OF reachable.startup]) code_simp
  have M: "map_of (fake_missions_db ?s) 2 = Some ?m" by code_simp
  have C: "map_of (fake_cats_db ?s) 1 = Some ?c" by code_simp
  have M1: "map_option m_is_complete (map_of (fake_missions_db ?s) 1) = Some True" by code_simp
  have a: "\<not> on_active_mission ?s 1" by code_simp
  have "fst (assign_cat_to_mission 2 1 ?s) = Inr (Some (?m\<lparr>m_cat_id := Some 1\<rparr>))"
    using C5_assign_cat_to_mission[OF r, of 2 1] M C a by simp
  then show ?thesis using r C M1 by simp
qed

lemma create_cat_duplicate:
  "duplicate_cat cat_in s \<Longrightarrow> create_cat cat_in s = (Inl (HTTPException HTTP_409_CONFLICT), s)"
  unfolding create_cat_def duplicate_cat_def list_ex_iff by auto

lemma create_cat_fresh:
  "\<not> duplicate_cat cat_in s \<Longrightarrow>
     create_cat cat_in s =
       (Inr \<lparr>c_name = cc_name cat_in, c_years_of_experience = cc_years_of_experience cat_in,
              c_breed = cc_breed cat_in, c_salary = cc_salary cat_in, c_id = next_cat_id s,
              c_mission_id = None\<rparr>,
        s\<lparr>fake_cats_db :=
            AList.update (next_cat_id s)
              \<lparr>c_name = cc_name cat_in, c_years_of_experience = cc_years_of_experience cat_in,
               c_breed = cc_breed cat_in, c_salary = cc_salary cat_in, c_id = next_cat_id s,
               c_mission_id = None\<rparr> (fake_cats_db s),
          next_cat_id := next_cat_id s + 1\<rparr>)"
  unfolding create_cat_def duplicate_cat_def list_ex_iff by (auto simp: Let_def)

lemma validate_returns_payload:
  "validate_cat_breed_from_payload lower response cat_in = Inr p \<Longrightarrow> p = cat_in"
  by (auto simp: validate_cat_breed_from_payload_def split: api_response.splits option.splits bool.splits)

section \<open>Creating a cat (C6)\<close>

text \<open>
  C6 says that the duplicate check comes before the breed validation, so that a duplicate
  request fails with Conflict whatever the validator does. In the code the validation is a
  dependency of the handler and runs first: for a request with the name and breed of a
  stored cat and an unreachable validator, the error is status 503, not 409.
\<close>

theorem C6_duplicate_unavailable_counterexample:
  "duplicate_cat ex_cat
     (serve id [CreateCat (BreedsData [Some ''Siamese'']) ex_cat] (reset_db_state ex_db0))
   \<and> fst (create_spy_cat id RequestError ex_cat
          (serve id [CreateCat (BreedsData [Some ''Siamese'']) ex_cat] (reset_db_state ex_db0)))
     = Inl (HTTPException HTTP_503_SERVICE_UNAVAILABLE)"
  by code_simp

text \<open>
  C6 as amended: the breed is validated first. If the validation fails, the request fails
  with the error of the validation and the store is unchanged, duplicate or not. If the
  validation accepts the payload, the request fails with Conflict (409) if a stored cat
  has the same name and breed, and otherwise the cat is stored under the next cat id with
  the fields of the payload and no mission reference.
\<close>

theorem C6_create_spy_cat:
  "(\<forall>e. validate_cat_breed_from_payload lower response cat_in = Inl e \<longrightarrow>
        create_spy_cat lower response cat_in s = (Inl e, s))
   \<and> (\<forall>p. validate_cat_breed_from_payload lower response cat_in = Inr p \<longrightarrow>
        p = cat_in
        \<and> (duplicate_cat cat_in s \<longrightarrow>
             create_spy_cat lower response cat_in s = (Inl (HTTPException HTTP_409_CONFLICT), s))
        \<and> (\<not> duplicate_cat cat_in s \<longrightarrow>
             (\<exists>cat s'. create_spy_cat lower response cat_in s = (Inr cat, s')
                \<and> map_of (fake_cats_db s') (next_cat_id s) = Some cat
                \<and> c_mission_id cat = None \<and> c_id cat = next_cat_id s
                \<and> c_name cat = cc_name cat_in \<and> c_breed cat = cc_breed cat_in)))"
proof (intro conjI allI impI)
  fix e assume "validate_cat_breed_from_payload lower response cat_in = Inl e"
  then show "create_spy_cat lower response cat_in s = (Inl e, s)"
    by (simp add: create_spy_cat_def)
next
  fix p assume v: "validate_cat_breed_from_payload lower response cat_in = Inr p"
  then show p: "p = cat_in" by (rule validate_returns_payload)
  {
    assume "duplicate_cat cat_in s"
    then show "create_spy_cat lower response cat_in s = (Inl (HTTPException HTTP_409_CONFLICT), s)"
      using v p by (simp add: create_spy_cat_def create_cat_duplicate)
  }
  {
    assume "\<not> duplicate_cat cat_in s"
    then show "\<exists>cat s'. create_spy_cat lower response cat_in s = (Inr cat, s')
                \<and> map_of (fake_cats_db s') (next_cat_id s) = Some cat
                \<and> c_mission_id cat = None \<and> c_id cat = next_cat_id s
                \<and> c_name cat = cc_name cat_in \<and> c_breed cat = cc_breed cat_in"
      using v p by (simp add: create_spy_cat_def create_cat_fresh update_conv')
  }
qed

theorem C6_create_spy_cat_witness:
  "validate_cat_breed_from_payload id (BreedsData [Some ''Persian'', Some ''Siamese'']) ex_cat
     = Inr ex_cat
   \<and> \<not> duplicate_cat ex_cat (reset_db_state ex_db0)
   \<and> (\<exists>cat s'. create_spy_cat id (BreedsData [Some ''Persian'', Some ''Siamese'']) ex_cat
                   (reset_db_state ex_db0) = (Inr cat, s')
          \<and> map_of (fake_cats_db s') (next_cat_id (reset_db_state ex_db0)) = Some cat
          \<and> c_mission_id cat = None \<and> c_id cat = next_cat_id (reset_db_state ex_db0)
          \<and> c_name cat = cc_name ex_cat \<and> c_breed cat = cc_breed ex_cat)"
proof -
  have v: "validate_cat_breed_from_payload id (BreedsData [Some ''Persian'', Some ''Siamese'']) ex_cat
     = Inr ex_cat" by code_simp
  have d: "\<not> duplicate_cat ex_cat (reset_db_state ex_db0)" by code_simp
  show ?thesis
    using v d C6_create_spy_cat[of id "BreedsData [Some ''Persian'', Some ''Siamese'']" ex_cat
        "reset_db_state ex_db0"]
    by blast
qed

lemma delete_absent: "map_of al k = None \<Longrightarrow> AList.delete k al = al"
  by (simp add: map_of_eq_None_iff)

lemma reachable_ex_completed: "reachable ex_completed"
  unfolding ex_completed_def by (rule reachable_serve[OF reachable.startup]) code_simp

lemma reachable_ex_assigned: "reachable ex_assigned"
  unfolding ex_assigned_def by (rule reachable_serve[OF reachable.startup]) code_simp

section \<open>Deleting a mission (C7)\<close>

text \<open>
  C7: in a reachable store, \<open>delete_a_mission\<close> fails with NotFound (404) if the mission is
  not stored; it fails with Forbidden (400) exactly if the mission has a cat reference, the
  stored cat refers back to the mission and the mission is not complete
  (\<open>assignment_active\<close>); otherwise it succeeds, and the store is the old one without the
  targets of the mission and without the mission: none of its target ids and not its own
  id is a key any more. A failure leaves the store as it is.
\<close>

theorem C7_delete_a_mission:
  assumes re: "reachable s"
  shows "(map_of (fake_missions_db s) mid = None \<longrightarrow>
            delete_a_mission mid s = (Inl (HTTPException HTTP_404_NOT_FOUND), s))
     \<and> (\<forall>m. map_of (fake_missions_db s) mid = Some m \<longrightarrow>
           (assignment_active s mid m \<longrightarrow>
              delete_a_mission mid s = (Inl (HTTPException HTTP_400_BAD_REQUEST), s))
         \<and> (\<not> assignment_active s mid m \<longrightarrow>
              delete_a_mission mid s =
                (Inr (),
                 s\<lparr>fake_targets_db := fold AList.delete (m_targets m) (fake_targets_db s),
                   fake_missions_db := AList.delete mid (fake_missions_db s)\<rparr>)
              \<and> map_of (fake_missions_db (snd (delete_a_mission mid s))) mid = None
              \<and> (\<forall>tid \<in> set (m_targets m).
                    map_of (fake_targets_db (snd (delete_a_mission mid s))) tid = None)))"
proof -
  have inv: "db_inv s" using re by (rule reachable_db_inv)
  show ?thesis
    by (auto simp: delete_a_mission_def delete_mission_inv[OF inv] assignment_active_def
          map_of_fold_delete delete_conv' split: option.splits)
qed

theorem C7_delete_a_mission_witness:
  "reachable ex_completed
   \<and> delete_a_mission 1 ex_completed =
       (Inr (),
        ex_completed\<lparr>fake_targets_db := fold AList.delete [1, 2] (fake_targets_db ex_completed),
                     fake_missions_db := AList.delete 1 (fake_missions_db ex_completed)\<rparr>)
   \<and> map_of (fake_targets_db (snd (delete_a_mission 1 ex_completed))) 2 = None"
proof -
  let ?m = "\<lparr>m_is_complete = True, m_id = 1, m_cat_id = None, m_targets = [1, 2]\<rparr>"
  have M: "map_of (fake_missions_db ex_completed) 1 = Some ?m" by code_simp
  have a: "\<not> assignment_active ex_completed 1 ?m" by code_simp
  show ?thesis
    using reachable_ex_completed C7_delete_a_mission[OF reachable_ex_completed, of 1] M a
    by (simp add: delete_conv')
qed

section \<open>Deleting a cat (C8)\<close>

text \<open>
  C8: in a reachable store, \<open>delete_spy_cat\<close> fails with NotFound (404) if the cat is not
  stored; it fails with status 400 exactly if the cat's mission reference is set and names
  a stored mission that is not complete (\<open>on_active_mission\<close>); otherwise (no reference, a
  reference to a complete mission, or a reference to a mission that is not stored) the cat
  is removed. A failure leaves the store as it is.
\<close>

theorem C8_delete_spy_cat:
  assumes re: "reachable s"
  shows "(map_of (fake_cats_db s) cid = None \<longrightarrow>
            delete_spy_cat cid s = (Inl (HTTPException HTTP_404_NOT_FOUND), s))
     \<and> (\<forall>cat. map_of (fake_cats_db s) cid = Some cat \<longrightarrow>
           (on_active_mission s cid \<longrightarrow>
              delete_spy_cat cid s = (Inl (HTTPException HTTP_400_BAD_REQUEST), s))
         \<and> (\<not> on_active_mission s cid \<longrightarrow>
              delete_spy_cat cid s =
                (Inr (), s\<lparr>fake_cats_db := AList.delete cid (fake_cats_db s)\<rparr>)
              \<and> map_of (fake_cats_db (snd (delete_spy_cat cid s))) cid = None))"
proof -
  have inv: "db_inv s" using re by (rule reachable_db_inv)
  have "delete_spy_cat cid s = (Inl (HTTPException HTTP_404_NOT_FOUND), s)"
    if "map_of (fake_cats_db s) cid = None"
    using that by (simp add: delete_spy_cat_def delete_cat_inv[OF inv] on_active_mission_def delete_absent)
  moreover have "delete_spy_cat cid s = (Inl (HTTPException HTTP_400_BAD_REQUEST), s)"
    if "on_active_mission s cid"
    using that by (simp add: delete_spy_cat_def delete_cat_inv[OF inv])
  moreover have "delete_spy_cat cid s = (Inr (), s\<lparr>fake_cats_db := AList.delete cid (fake_cats_db s)\<rparr>)
              \<and> map_of (fake_cats_db (snd (delete_spy_cat cid s))) cid = None"
    if "map_of (fake_cats_db s) cid = Some cat" "\<not> on_active_mission s cid" for cat
    using that by (simp add: delete_spy_cat_def delete_cat_inv[OF inv] delete_conv')
  ultimately show ?thesis by blast
qed

theorem C8_delete_spy_cat_witness:
  "reachable ex_assigned
   \<and> on_active_mission ex_assigned 1
   \<and> delete_spy_cat 1 ex_assigned = (Inl (HTTPException HTTP_400_BAD_REQUEST), ex_assigned)"
proof -
  have C: "map_of (fake_cats_db ex_assigned) 1 =
      Some \<lparr>c_name = ''Tom'', c_years_of_experience = 3, c_breed = ''Siamese'',
             c_salary = 100, c_id = 1, c_mission_id = Some 1\<rparr>" by code_simp
  have a: "on_active_mission ex_assigned 1" by code_simp
  show ?thesis
    using reachable_ex_assigned a C C8_delete_spy_cat[OF reachable_ex_assigned, of 1]
    by simp
qed

section \<open>The symmetric link (C2)\<close>

text \<open>
  C2 says that in every reachable store a cat whose mission reference is set refers to a
  stored mission that refers back to the cat. The code breaks this: \<open>assign_cat_to_mission\<close>
  does not refuse a mission that is already complete, and \<open>delete_mission\<close> deletes a
  complete mission even when a stored cat refers to it (its comment: "If mission is
  complete, cat should have been unassigned"). The five requests of \<open>dangling_requests\<close>,
  served from the empty store, lead to a reachable store where cat 1 still refers to
  mission 1, and mission 1 is gone.
\<close>

theorem C2_dangling_mission_reference:
  "reachable (serve id dangling_requests (reset_db_state ex_db0))
   \<and> map_option c_mission_id
       (map_of (fake_cats_db (serve id dangling_requests (reset_db_state ex_db0))) 1)
     = Some (Some 1)
   \<and> map_of (fake_missions_db (serve id dangling_requests (reset_db_state ex_db0))) 1 = None"
proof -
  have r: "reachable (serve id dangling_requests (reset_db_state ex_db0))"
    by (rule reachable_serve[OF reachable.startup]) code_simp
  have e: "map_option c_mission_id
       (map_of (fake_cats_db (serve id dangling_requests (reset_db_state ex_db0))) 1)
     = Some (Some 1)
   \<and> map_of (fake_missions_db (serve id dangling_requests (reset_db_state ex_db0))) 1 = None"
    by code_simp
  show ?thesis using r e by blast
qed

end
